theory Spec2Isabelle
  imports Main
begin

section \<open>Python text and values\<close>

text \<open>
  A Python \<^verbatim>\<open>str\<close> is a sequence of Unicode code points; it is modelled as the list of
  these code points. \<open>ustr\<close> turns a literal of the theory into such a text.
\<close>

type_synonym ustr = "nat list"

definition ustr :: "string \<Rightarrow> ustr" where
  "ustr cs = map of_char cs"

text \<open>
  The values a JSON document or a column attribute can hold. A \<^verbatim>\<open>dict\<close> keeps its
  items in insertion order. A \<^verbatim>\<open>float\<close> is kept as the text it was read from: no
  arithmetic on floats is modelled.
\<close>

datatype pyval =
    PNone
  | PBool bool
  | PInt int
  | PFloat ustr
  | PStr ustr
  | PList "pyval list"
  | PDict "(ustr \<times> pyval) list"

datatype exn =
    ValueError
  | AttributeError
  | JSONDecodeError
  | RecursionError
  | OverflowError
  | IntegrityError
  | DBAPIError

definition is_digit :: "nat \<Rightarrow> bool" where
  "is_digit c = (48 \<le> c \<and> c \<le> 57)"

definition digits_value :: "ustr \<Rightarrow> nat" where
  "digits_value ds = foldl (\<lambda>n d. 10 * n + (d - 48)) 0 ds"

text \<open>\<^verbatim>\<open>str.isspace\<close> of one character, \<^verbatim>\<open>str.strip()\<close> and \<^verbatim>\<open>str.split(sep)\<close>.\<close>

definition py_isspace :: "nat \<Rightarrow> bool" where
  "py_isspace c =
     ((9 \<le> c \<and> c \<le> 13) \<or> (28 \<le> c \<and> c \<le> 32) \<or> c = 133 \<or> c = 160 \<or> c = 5760
      \<or> (8192 \<le> c \<and> c \<le> 8202) \<or> c = 8232 \<or> c = 8233 \<or> c = 8239 \<or> c = 8287
      \<or> c = 12288)"

definition strip :: "ustr \<Rightarrow> ustr" where
  "strip s = rev (dropWhile py_isspace (rev (dropWhile py_isspace s)))"

fun split_from :: "nat \<Rightarrow> ustr \<Rightarrow> ustr \<Rightarrow> ustr list" where
  "split_from sep item [] = [item]"
| "split_from sep item (c # s) =
     (if c = sep then item # split_from sep [] s else split_from sep (item @ [c]) s)"

definition py_split :: "nat \<Rightarrow> ustr \<Rightarrow> ustr list" where
  "py_split sep s = split_from sep [] s"

text \<open>
  Truth value of a Python object, as \<^verbatim>\<open>if x\<close> and \<^verbatim>\<open>not x\<close> test it. A float is
  false when it is zero: its mantissa has no digit but 0.
\<close>

definition float_nonzero :: "ustr \<Rightarrow> bool" where
  "float_nonzero x =
     (list_ex (\<lambda>c. 49 \<le> c \<and> c \<le> 57) (takeWhile (\<lambda>c. c \<noteq> 101 \<and> c \<noteq> 69) x)
      \<or> list_all (\<lambda>c. \<not> is_digit c) x)"

fun truthy :: "pyval \<Rightarrow> bool" where
  "truthy PNone = False"
| "truthy (PBool b) = b"
| "truthy (PInt i) = (i \<noteq> 0)"
| "truthy (PFloat x) = float_nonzero x"
| "truthy (PStr s) = (s \<noteq> [])"
| "truthy (PList xs) = (xs \<noteq> [])"
| "truthy (PDict d) = (d \<noteq> [])"

text \<open>
  The decimal digits of Unicode 14 (the characters of category Nd, which CPython 3.11
  knows) come in runs of ten, from the digit zero to the digit nine; \<open>decimal_zeros\<close>
  lists the zeros. \<open>to_decimal\<close> is the value of a decimal digit.
\<close>

definition decimal_zeros :: "nat list" where
  "decimal_zeros =
     [48, 1632, 1776, 1984, 2406, 2534, 2662, 2790, 2918, 3046, 3174, 3302, 3430, 3558, 3664,
      3792, 3872, 4160, 4240, 6112, 6160, 6470, 6608, 6784, 6800, 6992, 7088, 7232, 7248,
      42528, 43216, 43264, 43472, 43504, 43600, 44016, 65296, 66720, 68912, 69734, 69872,
      69942, 70096, 70384, 70736, 70864, 71248, 71360, 71472, 71904, 72016, 72784, 73040,
      73120, 92768, 92864, 93008, 120782, 120792, 120802, 120812, 120822, 123200, 123632,
      125264, 130032]"

definition to_decimal :: "nat \<Rightarrow> nat option" where
  "to_decimal c =
     (case find (\<lambda>z. z \<le> c \<and> c < z + 10) decimal_zeros of
        None \<Rightarrow> None
      | Some z \<Rightarrow> Some (c - z))"

text \<open>
  \<^verbatim>\<open>int(s)\<close> of a text in base 10, as CPython 3.11 with its default settings reads it;
  \<open>None\<close> stands for \<^verbatim>\<open>ValueError\<close>. Every character from 127 on is first made
  ASCII: a space if it is whitespace, the ASCII digit of its value if it is a decimal
  digit, a question mark otherwise. What is read then is whitespace of the C locale
  (the characters 9 to 13 and the space, so none of the separators 28 to 31), a sign,
  decimal digits with single underscores between them, and whitespace up to the end. A
  literal of more than \<open>max_str_digits\<close> digits is refused.
\<close>

definition ascii_space :: "nat \<Rightarrow> bool" where
  "ascii_space c = ((9 \<le> c \<and> c \<le> 13) \<or> c = 32)"

definition to_ascii :: "nat \<Rightarrow> nat" where
  "to_ascii c =
     (if c < 127 then c
      else if py_isspace c then 32
      else (case to_decimal c of None \<Rightarrow> 63 | Some d \<Rightarrow> 48 + d))"

definition max_str_digits :: nat where
  "max_str_digits = 4300"

fun int_digits :: "ustr \<Rightarrow> bool" where
  "int_digits [] = False"
| "int_digits [c] = is_digit c"
| "int_digits (c # d # r) =
     (is_digit c \<and> (if d = 95 then r \<noteq> [] \<and> int_digits r else int_digits (d # r)))"

definition py_int :: "ustr \<Rightarrow> int option" where
  "py_int s =
     (let a = map to_ascii s;
          t = rev (dropWhile ascii_space (rev (dropWhile ascii_space a)));
          (neg, ds) =
            (case t of
               [] \<Rightarrow> (False, [])
             | c # r \<Rightarrow> if c = 45 then (True, r) else if c = 43 then (False, r) else (False, t))
      in if int_digits ds \<and> length (filter is_digit ds) \<le> max_str_digits then
           Some (if neg then - int (digits_value (filter is_digit ds))
                 else int (digits_value (filter is_digit ds)))
         else None)"

text \<open>A \<^verbatim>\<open>dict\<close> as the list of its items: \<^verbatim>\<open>d.get(k)\<close>, \<^verbatim>\<open>k in d\<close>, \<^verbatim>\<open>d[k] = v\<close>.\<close>

definition dict_get :: "(ustr \<times> pyval) list \<Rightarrow> ustr \<Rightarrow> pyval" where
  "dict_get d k = (case map_of d k of None \<Rightarrow> PNone | Some v \<Rightarrow> v)"

definition dict_in :: "ustr \<Rightarrow> (ustr \<times> pyval) list \<Rightarrow> bool" where
  "dict_in k d = (map_of d k \<noteq> None)"

definition dict_set :: "(ustr \<times> pyval) list \<Rightarrow> ustr \<Rightarrow> pyval \<Rightarrow> (ustr \<times> pyval) list" where
  "dict_set d k v =
     (if k \<in> fst ` set d then map (\<lambda>(k', v'). if k' = k then (k', v) else (k', v')) d
      else d @ [(k, v)])"

definition dict_of_pairs :: "(ustr \<times> pyval) list \<Rightarrow> (ustr \<times> pyval) list" where
  "dict_of_pairs ps = foldl (\<lambda>d (k, v). dict_set d k v) [] ps"

section \<open>The json module\<close>

subsection \<open>json.loads\<close>

text \<open>
  The decoder of Python's \<^verbatim>\<open>json\<close> package on a \<^verbatim>\<open>str\<close>, with its default settings
  (strict strings, the constants NaN, Infinity and -Infinity accepted). Every function
  takes the text from the current position on and returns what it read with the text
  after it; in \<open>scanstring\<close> and the functions for numbers \<open>None\<close> stands for a
  text that is no string or number. The decoder is the one of CPython 3.11 with its
  default settings: an integer of more than \<open>max_str_digits\<close> digits raises
  \<^verbatim>\<open>ValueError\<close>, and entering an array or an object takes one level of the
  interpreter's recursion depth, so that \<^verbatim>\<open>RecursionError\<close> is raised when none is left.
\<close>

definition json_ws :: "nat \<Rightarrow> bool" where
  "json_ws c = (c = 32 \<or> c = 9 \<or> c = 10 \<or> c = 13)"

definition skip_ws :: "ustr \<Rightarrow> ustr" where
  "skip_ws s = dropWhile json_ws s"

definition startswith :: "ustr \<Rightarrow> ustr \<Rightarrow> bool" where
  "startswith s p = (take (length p) s = p)"

definition hex_digit :: "nat \<Rightarrow> nat option" where
  "hex_digit c =
     (if 48 \<le> c \<and> c \<le> 57 then Some (c - 48)
      else if 97 \<le> c \<and> c \<le> 102 then Some (c - 87)
      else if 65 \<le> c \<and> c \<le> 70 then Some (c - 55)
      else None)"

fun decode_uXXXX :: "ustr \<Rightarrow> nat option" where
  "decode_uXXXX (a # b # c # d # _) =
     (case (hex_digit a, hex_digit b, hex_digit c, hex_digit d) of
        (Some h1, Some h2, Some h3, Some h4) \<Rightarrow> Some (((h1 * 16 + h2) * 16 + h3) * 16 + h4)
      | _ \<Rightarrow> None)"
| "decode_uXXXX _ = None"

definition BACKSLASH :: "nat \<Rightarrow> nat option" where
  "BACKSLASH e =
     (if e = 34 then Some 34 else if e = 92 then Some 92 else if e = 47 then Some 47
      else if e = 98 then Some 8 else if e = 102 then Some 12 else if e = 110 then Some 10
      else if e = 114 then Some 13 else if e = 116 then Some 9 else None)"

text \<open>
  \<open>scanstring\<close> starts after the opening quote. A high surrogate escape followed by a
  low surrogate escape is one code point.
\<close>

fun scanstring :: "ustr \<Rightarrow> ustr \<Rightarrow> (ustr \<times> ustr) option" where
  "scanstring chunks [] = None"
| "scanstring chunks (c # s) =
     (if c = 34 then Some (chunks, s)
      else if c = 92 then
        (case s of
           [] \<Rightarrow> None
         | esc # s1 \<Rightarrow>
             if esc \<noteq> 117 then
               (case BACKSLASH esc of
                  None \<Rightarrow> None
                | Some ch \<Rightarrow> scanstring (chunks @ [ch]) s1)
             else
               (case decode_uXXXX s1 of
                  None \<Rightarrow> None
                | Some uni \<Rightarrow>
                    if 55296 \<le> uni \<and> uni \<le> 56319 \<and> take 2 (drop 4 s1) = [92, 117] then
                      (case decode_uXXXX (drop 6 s1) of
                         None \<Rightarrow> None
                       | Some uni2 \<Rightarrow>
                           if 56320 \<le> uni2 \<and> uni2 \<le> 57343 then
                             scanstring
                               (chunks @ [65536 + ((uni - 55296) * 1024 + (uni2 - 56320))])
                               (drop 10 s1)
                           else scanstring (chunks @ [uni]) (drop 4 s1))
                    else scanstring (chunks @ [uni]) (drop 4 s1)))
      else if c < 32 then None
      else scanstring (chunks @ [c]) s)"

lemma scanstring_shorter:
  "scanstring chunks s = Some (t, r) \<Longrightarrow> length r < length s"
proof (induction chunks s arbitrary: t r rule: scanstring.induct)
  case (1 chunks)
  then show ?case by simp
next
  case (2 chunks c s)
  show ?case
  proof (cases "c = 34")
    case True
    with "2.prems" show ?thesis by simp
  next
    case c34: False
    show ?thesis
    proof (cases "c = 92")
      case False
      with c34 "2.prems" have "\<not> c < 32" and "scanstring (chunks @ [c]) s = Some (t, r)"
        by (simp_all split: if_splits)
      with "2.IH"(5) [OF c34 False] show ?thesis by fastforce
    next
      case c92: True
      show ?thesis
      proof (cases s)
        case Nil
        with c34 c92 "2.prems" show ?thesis by simp
      next
        case (Cons esc s1)
        show ?thesis
        proof (cases "esc = 117")
          case False
          with c34 c92 Cons "2.prems" obtain ch where
            "BACKSLASH esc = Some ch" "scanstring (chunks @ [ch]) s1 = Some (t, r)"
            by (auto split: option.splits)
          with "2.IH"(1) [OF c34 c92 Cons False] have "length r < length s1" by blast
          with Cons show ?thesis by simp
        next
          case u: True
          then have nu: "\<not> esc \<noteq> 117" by simp
          from c34 c92 Cons u "2.prems" obtain uni where uni: "decode_uXXXX s1 = Some uni"
            by (auto split: option.splits)
          show ?thesis
          proof (cases "55296 \<le> uni \<and> uni \<le> 56319 \<and> take 2 (drop 4 s1) = [92, 117]")
            case False
            with c34 c92 Cons u uni "2.prems"
            have "scanstring (chunks @ [uni]) (drop 4 s1) = Some (t, r)" by auto
            with "2.IH"(4) [OF c34 c92 Cons nu uni False]
            have "length r < length (drop 4 s1)" by blast
            with Cons show ?thesis by simp
          next
            case hi: True
            from c34 c92 Cons u uni hi "2.prems" obtain uni2 where
              uni2: "decode_uXXXX (drop 6 s1) = Some uni2"
              by (auto split: option.splits)
            show ?thesis
            proof (cases "56320 \<le> uni2 \<and> uni2 \<le> 57343")
              case True
              with c34 c92 Cons u uni hi uni2 "2.prems"
              have "scanstring (chunks @ [65536 + ((uni - 55296) * 1024 + (uni2 - 56320))])
                      (drop 10 s1) = Some (t, r)" by auto
              with "2.IH"(2) [OF c34 c92 Cons nu uni hi uni2 True]
              have "length r < length (drop 10 s1)" by blast
              with Cons show ?thesis by simp
            next
              case False
              with c34 c92 Cons u uni hi uni2 "2.prems"
              have "scanstring (chunks @ [uni]) (drop 4 s1) = Some (t, r)" by auto
              with "2.IH"(3) [OF c34 c92 Cons nu uni hi uni2 False]
              have "length r < length (drop 4 s1)" by blast
              with Cons show ?thesis by simp
            qed
          qed
        qed
      qed
    qed
  qed
qed

text \<open>
  Numbers: an optional minus, 0 or a digit sequence that does not start with 0, an
  optional fraction and an optional exponent, each taken only when complete. A number
  with a fraction or an exponent is a float, any other an int.
\<close>

definition match_digits :: "ustr \<Rightarrow> ustr \<times> ustr" where
  "match_digits s = (takeWhile is_digit s, dropWhile is_digit s)"

definition match_integer :: "ustr \<Rightarrow> (ustr \<times> ustr) option" where
  "match_integer s =
     (let (sign, s1) =
            (case s of [] \<Rightarrow> ([], s) | c # s' \<Rightarrow> if c = 45 then ([45], s') else ([], s))
      in case s1 of
           [] \<Rightarrow> None
         | d # s2 \<Rightarrow>
             if d = 48 then Some (sign @ [48], s2)
             else if 49 \<le> d \<and> d \<le> 57 then
               (let (ds, s3) = match_digits s2 in Some (sign @ d # ds, s3))
             else None)"

definition match_frac :: "ustr \<Rightarrow> ustr \<times> ustr" where
  "match_frac s =
     (case s of
        [] \<Rightarrow> ([], s)
      | c # s1 \<Rightarrow>
          if c = 46 \<and> fst (match_digits s1) \<noteq> [] then
            (c # fst (match_digits s1), snd (match_digits s1))
          else ([], s))"

definition match_exp :: "ustr \<Rightarrow> ustr \<times> ustr" where
  "match_exp s =
     (case s of
        [] \<Rightarrow> ([], s)
      | c # s1 \<Rightarrow>
          if c = 101 \<or> c = 69 then
            (let (sign, s2) =
                   (case s1 of
                      [] \<Rightarrow> ([], s1)
                    | g # s' \<Rightarrow> if g = 45 \<or> g = 43 then ([g], s') else ([], s1))
             in if fst (match_digits s2) \<noteq> [] then
                  (c # sign @ fst (match_digits s2), snd (match_digits s2))
                else ([], s))
          else ([], s))"

definition parse_int :: "ustr \<Rightarrow> int" where
  "parse_int lexeme =
     (case lexeme of
        [] \<Rightarrow> 0
      | c # ds \<Rightarrow> if c = 45 then - int (digits_value ds) else int (digits_value lexeme))"

definition number_value :: "ustr \<Rightarrow> ustr \<Rightarrow> ustr \<Rightarrow> exn + pyval" where
  "number_value integer frac exp =
     (if frac \<noteq> [] \<or> exp \<noteq> [] then Inr (PFloat (integer @ frac @ exp))
      else if max_str_digits < length (filter is_digit integer) then Inl ValueError
      else Inr (PInt (parse_int integer)))"

definition match_number :: "ustr \<Rightarrow> ((exn + pyval) \<times> ustr) option" where
  "match_number s =
     (case match_integer s of
        None \<Rightarrow> None
      | Some (integer, s1) \<Rightarrow>
          (let (frac, s2) = match_frac s1; (exp, s3) = match_exp s2
           in Some (number_value integer frac exp, s3)))"

lemma length_skip_ws: "length (skip_ws s) \<le> length s"
  by (simp add: skip_ws_def length_dropWhile_le)

lemma skip_ws_Cons_shorter:
  assumes "skip_ws r = d # r'"
  shows "length (skip_ws r') < length r"
proof -
  have "length (skip_ws r') \<le> length r'" by (rule length_skip_ws)
  moreover have "length (skip_ws r) \<le> length r" by (rule length_skip_ws)
  ultimately show ?thesis using assms by simp
qed

text \<open>
  \<open>scan_once\<close> reads one value, \<open>JSONArray\<close> the elements of an array from the
  first element on, \<open>JSONObject\<close> the members of an object from the first key on;
  \<open>lim\<close> is the number of arrays and objects, one within the other, that the
  recursion depth still allows to enter. The test that a value used up some text holds
  whenever a value is read (lemma \<open>scan_once_shorter\<close>): it is there for the recursion
  to be well-founded.
\<close>

function (sequential) scan_once :: "nat \<Rightarrow> ustr \<Rightarrow> exn + pyval \<times> ustr"
  and JSONArray :: "nat \<Rightarrow> pyval list \<Rightarrow> ustr \<Rightarrow> exn + pyval \<times> ustr"
  and JSONObject :: "nat \<Rightarrow> (ustr \<times> pyval) list \<Rightarrow> ustr \<Rightarrow> exn + pyval \<times> ustr"
where
  "scan_once lim [] = Inl JSONDecodeError"
| "scan_once lim (c # s) =
     (if c = 34 then
        (case scanstring [] s of
           None \<Rightarrow> Inl JSONDecodeError
         | Some (t, r) \<Rightarrow> Inr (PStr t, r))
      else if c = 123 then
        (if lim = 0 then Inl RecursionError
         else
           (case skip_ws s of
              [] \<Rightarrow> Inl JSONDecodeError
            | d # r \<Rightarrow>
                if d = 125 then Inr (PDict [], r) else JSONObject (lim - 1) [] (skip_ws s)))
      else if c = 91 then
        (if lim = 0 then Inl RecursionError
         else
           (case skip_ws s of
              [] \<Rightarrow> Inl JSONDecodeError
            | d # r \<Rightarrow>
                if d = 93 then Inr (PList [], r) else JSONArray (lim - 1) [] (skip_ws s)))
      else if startswith (c # s) (ustr ''null'') then Inr (PNone, drop 4 (c # s))
      else if startswith (c # s) (ustr ''true'') then Inr (PBool True, drop 4 (c # s))
      else if startswith (c # s) (ustr ''false'') then Inr (PBool False, drop 5 (c # s))
      else
        (case match_number (c # s) of
           Some (Inl e, r) \<Rightarrow> Inl e
         | Some (Inr v, r) \<Rightarrow> Inr (v, r)
         | None \<Rightarrow>
             if startswith (c # s) (ustr ''NaN'') then
               Inr (PFloat (ustr ''NaN''), drop 3 (c # s))
             else if startswith (c # s) (ustr ''Infinity'') then
               Inr (PFloat (ustr ''Infinity''), drop 8 (c # s))
             else if startswith (c # s) (ustr ''-Infinity'') then
               Inr (PFloat (ustr ''-Infinity''), drop 9 (c # s))
             else Inl JSONDecodeError))"
| "JSONArray lim values s =
     (case scan_once lim s of
        Inl e \<Rightarrow> Inl e
      | Inr (v, r) \<Rightarrow>
          if length r < length s then
            (case skip_ws r of
               [] \<Rightarrow> Inl JSONDecodeError
             | d # r' \<Rightarrow>
                 if d = 93 then Inr (PList (values @ [v]), r')
                 else if d = 44 then JSONArray lim (values @ [v]) (skip_ws r')
                 else Inl JSONDecodeError)
          else Inl JSONDecodeError)"
| "JSONObject lim pairs s =
     (case s of
        [] \<Rightarrow> Inl JSONDecodeError
      | q # s1 \<Rightarrow>
          if q \<noteq> 34 then Inl JSONDecodeError
          else
            (case scanstring [] s1 of
               None \<Rightarrow> Inl JSONDecodeError
             | Some (key, s2) \<Rightarrow>
                 (case skip_ws s2 of
                    [] \<Rightarrow> Inl JSONDecodeError
                  | colon # s3 \<Rightarrow>
                      if colon \<noteq> 58 then Inl JSONDecodeError
                      else
                        (case scan_once lim (skip_ws s3) of
                           Inl e \<Rightarrow> Inl e
                         | Inr (v, r) \<Rightarrow>
                             if length r < length s then
                               (case skip_ws r of
                                  [] \<Rightarrow> Inl JSONDecodeError
                                | d # r' \<Rightarrow>
                                    if d = 125 then
                                      Inr (PDict (dict_of_pairs (pairs @ [(key, v)])), r')
                                    else if d = 44 then
                                      JSONObject lim (pairs @ [(key, v)]) (skip_ws r')
                                    else Inl JSONDecodeError)
                             else Inl JSONDecodeError))))"
  by pat_completeness auto

termination
  apply (relation "measure (\<lambda>x. case x of
          Inl (lim, s) \<Rightarrow> 2 * length s
        | Inr (Inl (lim, vs, s)) \<Rightarrow> 2 * length s + 1
        | Inr (Inr (lim, ps, s)) \<Rightarrow> 2 * length s + 1)")
  apply simp
  subgoal for lim c s d r using length_skip_ws [of s] by simp
  subgoal for lim c s d r using length_skip_ws [of s] by simp
  apply simp
  subgoal for lim vs s x2 v r d r' using skip_ws_Cons_shorter [of r d r'] by simp
  subgoal for lim ps s q s1 x2 key s2 colon s3
    using scanstring_shorter [of "[]" s1 key s2] skip_ws_Cons_shorter [of s2 colon s3] by simp
  subgoal for lim ps s q s1 x2 key s2 colon s3 x2a v r d r'
    using skip_ws_Cons_shorter [of r d r'] by simp
  done

text \<open>
  \<^verbatim>\<open>json.loads(s)\<close>: no byte order mark, one value, nothing but whitespace around it.
  \<^verbatim>\<open>JSONDecodeError\<close> is what the text is refused with; \<^verbatim>\<open>ValueError\<close> and
  \<^verbatim>\<open>RecursionError\<close> come from the interpreter's limits.
\<close>

definition json_loads :: "nat \<Rightarrow> ustr \<Rightarrow> exn + pyval" where
  "json_loads lim s =
     (if startswith s [65279] then Inl JSONDecodeError
      else
        (case scan_once lim (skip_ws s) of
           Inl e \<Rightarrow> Inl e
         | Inr (obj, r) \<Rightarrow> if skip_ws r = [] then Inr obj else Inl JSONDecodeError))"

text \<open>Whatever is read is shorter afterwards: the test in the two loops never fails.\<close>

lemma match_digits_le: "length (snd (match_digits s)) \<le> length s"
  by (simp add: match_digits_def length_dropWhile_le)

lemma match_integer_shorter:
  "match_integer s = Some (i, r) \<Longrightarrow> length r < length s"
  using match_digits_le
  by (auto simp: match_integer_def match_digits_def Let_def less_Suc_eq_le
      intro: le_trans [OF length_dropWhile_le]
      split: list.splits if_splits prod.splits)

lemma match_frac_le: "length (snd (match_frac s)) \<le> length s"
  using match_digits_le
  by (auto simp: match_frac_def le_Suc_eq split: list.splits)

lemma match_exp_le: "length (snd (match_exp s)) \<le> length s"
proof (cases s)
  case Nil
  then show ?thesis by (simp add: match_exp_def)
next
  case (Cons c s1)
  have a: "length (snd (match_digits s1)) \<le> length s1" by (rule match_digits_le)
  have b: "\<And>g s'. s1 = g # s' \<Longrightarrow> length (snd (match_digits s')) \<le> length s1"
    using match_digits_le le_SucI by fastforce
  show ?thesis
    using Cons a b
    by (auto simp: match_exp_def Let_def le_Suc_eq split: list.splits if_splits)
qed

lemma match_number_shorter:
  assumes "match_number s = Some (v, r)"
  shows "length r < length s"
proof -
  from assms obtain i s1 where i: "match_integer s = Some (i, s1)"
    by (auto simp: match_number_def split: option.splits)
  have 1: "length s1 < length s" using match_integer_shorter [OF i] .
  have 2: "length (snd (match_frac s1)) \<le> length s1" by (rule match_frac_le)
  have 3: "length (snd (match_exp (snd (match_frac s1)))) \<le> length (snd (match_frac s1))"
    by (rule match_exp_le)
  from assms i have "r = snd (match_exp (snd (match_frac s1)))"
    by (auto simp: match_number_def Let_def split: prod.splits if_splits)
  with 1 2 3 show ?thesis by simp
qed

lemma scan_once_shorter:
  "scan_once lim s = Inr (v, r) \<Longrightarrow> length r < length s"
  "JSONArray lim vs s = Inr (v, r) \<Longrightarrow> length r < length s"
  "JSONObject lim ps s = Inr (v, r) \<Longrightarrow> length r < length s"
proof (induction lim s and lim vs s and lim ps s arbitrary: v r and v r and v r
    rule: scan_once_JSONArray_JSONObject.induct)
  case 1
  then show ?case by simp
next
  case (2 lim c s)
  show ?case
  proof (cases "c = 34")
    case True
    with "2.prems" show ?thesis
      by (auto split: option.splits dest: scanstring_shorter)
  next
    case n34: False
    show ?thesis
    proof (cases "c = 123")
      case True
      with n34 "2.prems" have l0: "lim \<noteq> 0" by (auto split: if_splits)
      show ?thesis
      proof (cases "skip_ws s")
        case Nil
        with True n34 l0 "2.prems" show ?thesis by simp
      next
        case (Cons d r0)
        have le: "length (skip_ws s) \<le> length s" by (rule length_skip_ws)
        show ?thesis
        proof (cases "d = 125")
          case True
          with \<open>c = 123\<close> n34 l0 Cons "2.prems" le show ?thesis by auto
        next
          case False
          with \<open>c = 123\<close> n34 l0 Cons "2.prems"
          have "JSONObject (lim - 1) [] (skip_ws s) = Inr (v, r)" by simp
          from "2.IH"(1) [OF n34 \<open>c = 123\<close> l0 Cons False this] le show ?thesis by simp
        qed
      qed
    next
      case n123: False
      show ?thesis
      proof (cases "c = 91")
        case True
        with n34 n123 "2.prems" have l0: "lim \<noteq> 0" by (auto split: if_splits)
        show ?thesis
        proof (cases "skip_ws s")
          case Nil
          with True n34 n123 l0 "2.prems" show ?thesis by simp
        next
          case (Cons d r0)
          have le: "length (skip_ws s) \<le> length s" by (rule length_skip_ws)
          show ?thesis
          proof (cases "d = 93")
            case True
            with \<open>c = 91\<close> n34 n123 l0 Cons "2.prems" le show ?thesis by auto
          next
            case False
            with \<open>c = 91\<close> n34 n123 l0 Cons "2.prems"
            have "JSONArray (lim - 1) [] (skip_ws s) = Inr (v, r)" by simp
            from "2.IH"(2) [OF n34 n123 \<open>c = 91\<close> l0 Cons False this] le show ?thesis by simp
          qed
        qed
      next
        case n91: False
        from n34 n123 n91 "2.prems" show ?thesis
          by (auto split: if_splits option.splits sum.splits prod.splits
              dest: match_number_shorter)
      qed
    qed
  qed
next
  case (3 lim vs s)
  from "3.prems" obtain v0 r0 where a: "scan_once lim s = Inr (v0, r0)" and b: "length r0 < length s"
    by (auto split: sum.splits if_splits)
  from "3.prems" a b obtain d r' where c: "skip_ws r0 = d # r'"
    by (auto split: list.splits)
  have le: "length (skip_ws r0) \<le> length r0" by (rule length_skip_ws)
  show ?case
  proof (cases "d = 93")
    case True
    with "3.prems" a b c le show ?thesis by auto
  next
    case False
    with "3.prems" a b c have d44: "d = 44" and
      rec: "JSONArray lim (vs @ [v0]) (skip_ws r') = Inr (v, r)"
      by (auto split: if_splits)
    from "3.IH"(2) [OF a refl b c False d44 rec] skip_ws_Cons_shorter [OF c] b
    show ?thesis by simp
  qed
next
  case (4 lim ps s)
  from "4.prems" obtain q s1 where s: "s = q # s1" by (cases s) auto
  from "4.prems" s have q: "\<not> q \<noteq> 34" by (auto split: if_splits)
  from "4.prems" s q obtain key s2 where k: "scanstring [] s1 = Some (key, s2)"
    by (auto split: option.splits)
  from "4.prems" s q k obtain colon s3 where c: "skip_ws s2 = colon # s3"
    by (auto split: list.splits)
  from "4.prems" s q k c have col: "\<not> colon \<noteq> 58" by (auto split: if_splits)
  from "4.prems" s q k c col obtain v0 r0 where
    a: "scan_once lim (skip_ws s3) = Inr (v0, r0)" and b: "length r0 < length s"
    by (auto split: sum.splits if_splits)
  from "4.prems" s q k c col a b obtain d r' where e: "skip_ws r0 = d # r'"
    by (auto split: list.splits)
  have le: "length (skip_ws r0) \<le> length r0" by (rule length_skip_ws)
  show ?case
  proof (cases "d = 125")
    case True
    with "4.prems" s q k c col a b e le show ?thesis by auto
  next
    case False
    with "4.prems" s q k c col a b e have d44: "d = 44" and
      rec: "JSONObject lim (ps @ [(key, v0)]) (skip_ws r') = Inr (v, r)"
      by (auto split: if_splits)
    from "4.IH"(2) [OF s q k refl c col a refl b e False d44 rec] skip_ws_Cons_shorter [OF e] b
    show ?thesis by simp
  qed
qed

subsection \<open>json.dumps\<close>

text \<open>
  The encoder with its default settings: \<^verbatim>\<open>ensure_ascii\<close>, the separators
  \<^verbatim>\<open>", "\<close> and \<^verbatim>\<open>": "\<close>. A float is written as the text it is kept as.
\<close>

fun dec_nat :: "nat \<Rightarrow> ustr" where
  "dec_nat n = (if n < 10 then [48 + n] else dec_nat (n div 10) @ [48 + n mod 10])"

definition dec_int :: "int \<Rightarrow> ustr" where
  "dec_int i = (if i < 0 then 45 # dec_nat (nat (- i)) else dec_nat (nat i))"

definition hex_char :: "nat \<Rightarrow> nat" where
  "hex_char d = (if d < 10 then 48 + d else 87 + d)"

definition hex4 :: "nat \<Rightarrow> ustr" where
  "hex4 n =
     [hex_char (n div 4096 mod 16), hex_char (n div 256 mod 16), hex_char (n div 16 mod 16),
      hex_char (n mod 16)]"

definition escape_char :: "nat \<Rightarrow> ustr" where
  "escape_char c =
     (if c = 34 then [92, 34]
      else if c = 92 then [92, 92]
      else if c = 10 then [92, 110]
      else if c = 13 then [92, 114]
      else if c = 9 then [92, 116]
      else if c = 8 then [92, 98]
      else if c = 12 then [92, 102]
      else if 32 \<le> c \<and> c \<le> 126 then [c]
      else if c < 65536 then [92, 117] @ hex4 c
      else [92, 117] @ hex4 (55296 + (c - 65536) div 1024 mod 1024)
           @ [92, 117] @ hex4 (56320 + (c - 65536) mod 1024))"

definition encode_basestring_ascii :: "ustr \<Rightarrow> ustr" where
  "encode_basestring_ascii s = [34] @ concat (map escape_char s) @ [34]"

fun join :: "ustr \<Rightarrow> ustr list \<Rightarrow> ustr" where
  "join sep [] = []"
| "join sep [x] = x"
| "join sep (x # y # ys) = x @ sep @ join sep (y # ys)"

fun json_dumps :: "pyval \<Rightarrow> ustr" where
  "json_dumps PNone = ustr ''null''"
| "json_dumps (PBool b) = (if b then ustr ''true'' else ustr ''false'')"
| "json_dumps (PInt i) = dec_int i"
| "json_dumps (PFloat x) = x"
| "json_dumps (PStr s) = encode_basestring_ascii s"
| "json_dumps (PList xs) = [91] @ join [44, 32] (map json_dumps xs) @ [93]"
| "json_dumps (PDict d) =
     [123]
     @ join [44, 32] (map (\<lambda>kv. encode_basestring_ascii (fst kv) @ [58, 32] @ json_dumps (snd kv)) d)
     @ [125]"

section \<open>The entity model (models/tool.py)\<close>

text \<open>
  A \<^verbatim>\<open>datetime\<close> with the fields year, month, day, hour, minute, second (the database's
  \<^verbatim>\<open>CURRENT_TIMESTAMP\<close> has no fraction of a second), and its \<^verbatim>\<open>isoformat()\<close>.
\<close>

datatype datetime = DateTime nat nat nat nat nat nat

definition zfill :: "nat \<Rightarrow> ustr \<Rightarrow> ustr" where
  "zfill n s = replicate (n - length s) 48 @ s"

fun isoformat :: "datetime \<Rightarrow> ustr" where
  "isoformat (DateTime y mo d h mi sec) =
     zfill 4 (dec_nat y) @ [45] @ zfill 2 (dec_nat mo) @ [45] @ zfill 2 (dec_nat d) @ [84]
     @ zfill 2 (dec_nat h) @ [58] @ zfill 2 (dec_nat mi) @ [58] @ zfill 2 (dec_nat sec)"

text \<open>
  An instance of \<^verbatim>\<open>DeveloperTool\<close>: one attribute per column. The primary key and the
  two timestamps are set by the database only; every other attribute holds the Python
  value last assigned to it or, once the instance was committed, the value read back from
  its row.
\<close>

record DeveloperTool =
  id' :: "int option"
  name :: pyval
  category :: pyval
  description :: pyval
  url :: pyval
  frameworks :: pyval
  supported_languages :: pyval
  features :: pyval
  native_integrations :: pyval
  verified_integrations :: pyval
  notable_strengths :: pyval
  known_limitations :: pyval
  maturity_score :: pyval
  popularity_score :: pyval
  pricing :: pyval
  created_at :: "datetime option"
  updated_at :: "datetime option"

text \<open>
  An exception ends the evaluation it is raised in: \<open>and_then\<close> goes on with the value
  of a step that raised nothing, \<open>map_result\<close> is a list comprehension over a function
  that may raise.
\<close>

definition and_then :: "exn + 'a \<Rightarrow> ('a \<Rightarrow> exn + 'b) \<Rightarrow> exn + 'b" where
  "and_then r f = (case r of Inl e \<Rightarrow> Inl e | Inr x \<Rightarrow> f x)"

fun map_result :: "('a \<Rightarrow> exn + 'b) \<Rightarrow> 'a list \<Rightarrow> exn + 'b list" where
  "map_result f [] = Inr []"
| "map_result f (x # xs) =
     and_then (f x) (\<lambda>y. and_then (map_result f xs) (\<lambda>ys. Inr (y # ys)))"

text \<open>
  \<^verbatim>\<open>_parse_json_field\<close>, with \<open>lim\<close> levels of recursion left for the decoder. Of
  what decoding a text raises the function catches \<^verbatim>\<open>JSONDecodeError\<close>;
  \<^verbatim>\<open>ValueError\<close> and \<^verbatim>\<open>RecursionError\<close> pass through it.
\<close>

definition parse_json_field :: "nat \<Rightarrow> pyval \<Rightarrow> exn + pyval" where
  "parse_json_field lim field_value =
     (if field_value = PNone \<or> field_value = PStr (ustr ''Not specified'') then Inr (PList [])
      else
        (case field_value of
           PStr s \<Rightarrow>
             (case json_loads lim s of
                Inl JSONDecodeError \<Rightarrow> Inr (PList [])
              | Inl e \<Rightarrow> Inl e
              | Inr v \<Rightarrow> Inr v)
         | PList xs \<Rightarrow> Inr (PList xs)
         | _ \<Rightarrow> Inr (PList [])))"

text \<open>\<^verbatim>\<open>_serialize_json_field\<close>.\<close>

definition serialize_json_field :: "pyval \<Rightarrow> pyval" where
  "serialize_json_field field_value =
     (if field_value = PNone then PNone
      else
        (case field_value of
           PList xs \<Rightarrow> PStr (json_dumps (PList xs))
         | _ \<Rightarrow> field_value))"

definition isoformat_or_None :: "datetime option \<Rightarrow> pyval" where
  "isoformat_or_None t = (case t of None \<Rightarrow> PNone | Some d \<Rightarrow> PStr (isoformat d))"

definition id_or_None :: "int option \<Rightarrow> pyval" where
  "id_or_None i = (case i of None \<Rightarrow> PNone | Some n \<Rightarrow> PInt n)"

definition to_dict :: "nat \<Rightarrow> DeveloperTool \<Rightarrow> exn + (ustr \<times> pyval) list" where
  "to_dict lim self =
     and_then (parse_json_field lim (frameworks self)) (\<lambda>v1.
     and_then (parse_json_field lim (supported_languages self)) (\<lambda>v2.
     and_then (parse_json_field lim (features self)) (\<lambda>v3.
     and_then (parse_json_field lim (native_integrations self)) (\<lambda>v4.
     and_then (parse_json_field lim (verified_integrations self)) (\<lambda>v5.
     and_then (parse_json_field lim (notable_strengths self)) (\<lambda>v6.
     and_then (parse_json_field lim (known_limitations self)) (\<lambda>v7.
       Inr [(ustr ''id'', id_or_None (id' self)),
            (ustr ''name'', name self),
            (ustr ''category'', category self),
            (ustr ''description'', description self),
            (ustr ''url'', url self),
            (ustr ''frameworks'', v1),
            (ustr ''supported_languages'', v2),
            (ustr ''features'', v3),
            (ustr ''native_integrations'', v4),
            (ustr ''verified_integrations'', v5),
            (ustr ''notable_strengths'', v6),
            (ustr ''known_limitations'', v7),
            (ustr ''maturity_score'', maturity_score self),
            (ustr ''popularity_score'', popularity_score self),
            (ustr ''pricing'', pricing self),
            (ustr ''created_at'', isoformat_or_None (created_at self)),
            (ustr ''updated_at'', isoformat_or_None (updated_at self))])))))))"

definition to_summary_dict :: "DeveloperTool \<Rightarrow> (ustr \<times> pyval) list" where
  "to_summary_dict self =
     [(ustr ''id'', id_or_None (id' self)),
      (ustr ''name'', name self),
      (ustr ''category'', category self),
      (ustr ''description'', description self),
      (ustr ''url'', url self),
      (ustr ''maturity_score'', maturity_score self),
      (ustr ''popularity_score'', popularity_score self)]"

definition from_dict :: "(ustr \<times> pyval) list \<Rightarrow> DeveloperTool" where
  "from_dict data =
     \<lparr> id' = None,
       name = dict_get data (ustr ''name''),
       category = dict_get data (ustr ''category''),
       description = dict_get data (ustr ''description''),
       url = dict_get data (ustr ''url''),
       frameworks = serialize_json_field (dict_get data (ustr ''frameworks'')),
       supported_languages = serialize_json_field (dict_get data (ustr ''supported_languages'')),
       features = serialize_json_field (dict_get data (ustr ''features'')),
       native_integrations = serialize_json_field (dict_get data (ustr ''native_integrations'')),
       verified_integrations =
         serialize_json_field (dict_get data (ustr ''verified_integrations'')),
       notable_strengths = serialize_json_field (dict_get data (ustr ''notable_strengths'')),
       known_limitations = serialize_json_field (dict_get data (ustr ''known_limitations'')),
       maturity_score = dict_get data (ustr ''maturity_score''),
       popularity_score = dict_get data (ustr ''popularity_score''),
       pricing = dict_get data (ustr ''pricing''),
       created_at = None,
       updated_at = None \<rparr>"

section \<open>The import script (import_data.py)\<close>

text \<open>
  \<^verbatim>\<open>parse_array_field\<close> and \<^verbatim>\<open>parse_score_field\<close> read a cell of the CSV file. On a
  value that is true and is not a text, \<^verbatim>\<open>.strip()\<close> raises \<^verbatim>\<open>AttributeError\<close>, which
  neither function catches.
\<close>

definition parse_array_field :: "pyval \<Rightarrow> exn + pyval" where
  "parse_array_field field_value =
     (if \<not> truthy field_value then Inr (PList [])
      else
        (case field_value of
           PStr s \<Rightarrow>
             if strip s = ustr ''Not specified'' then Inr (PList [])
             else Inr (PList (map PStr
                    (map strip (filter (\<lambda>item. strip item \<noteq> []) (py_split 44 s)))))
         | _ \<Rightarrow> Inl AttributeError))"


section \<open>The store\<close>

text \<open>
  The table \<^verbatim>\<open>developer_tools\<close> is the list of its rows in the order of their primary
  keys, which is the order a query without \<^verbatim>\<open>ORDER BY\<close> returns them in. A condition
  selects a row when it is true of it, so a condition on a column that is \<^verbatim>\<open>NULL\<close>
  selects nothing.
\<close>

type_synonym table = "DeveloperTool list"

text \<open>
  The database is SQLite, reached through the \<^verbatim>\<open>sqlite3\<close> driver. The driver binds
  \<^verbatim>\<open>None\<close>, a \<^verbatim>\<open>bool\<close> (as the integer 1 or 0), an \<^verbatim>\<open>int\<close> of 64 bits, a
  \<^verbatim>\<open>float\<close> and a \<^verbatim>\<open>str\<close> to a statement; for an \<^verbatim>\<open>int\<close> beyond 64 bits it raises
  \<^verbatim>\<open>OverflowError\<close>, for a \<^verbatim>\<open>list\<close> or a \<^verbatim>\<open>dict\<close> an error of the driver, which
  SQLAlchemy raises as a \<^verbatim>\<open>DBAPIError\<close>.
\<close>

definition int64 :: "int \<Rightarrow> bool" where
  "int64 n = (- (2 ^ 63) \<le> n \<and> n < 2 ^ 63)"

definition bind_error :: "pyval \<Rightarrow> exn option" where
  "bind_error v =
     (case v of
        PList _ \<Rightarrow> Some DBAPIError
      | PDict _ \<Rightarrow> Some DBAPIError
      | PInt n \<Rightarrow> if int64 n then None else Some OverflowError
      | _ \<Rightarrow> None)"

definition bindable :: "pyval \<Rightarrow> bool" where
  "bindable v = (bind_error v = None)"

text \<open>
  The first parameter of a statement, in the order of the statement, that the driver
  refuses.
\<close>

fun first_bind_error :: "pyval list \<Rightarrow> exn option" where
  "first_bind_error [] = None"
| "first_bind_error (v # vs) =
     (case bind_error v of None \<Rightarrow> first_bind_error vs | Some e \<Rightarrow> Some e)"

text \<open>
  A column keeps a value according to its type affinity: \<^verbatim>\<open>TEXT\<close> for the columns
  declared \<^verbatim>\<open>String\<close> or \<^verbatim>\<open>Text\<close>, \<^verbatim>\<open>INTEGER\<close> for the two scores. A column of
  affinity \<^verbatim>\<open>TEXT\<close> keeps a number as its text. A column of affinity \<^verbatim>\<open>INTEGER\<close>
  keeps a text that reads as a number (whitespace, a sign, digits, a fraction, an
  exponent) as that number, and a number with a fraction as an integer when it is one.
  \<open>sqlite_number\<close> reads such a text: whether it has the form of an integer, and
  \<open>m\<close> and \<open>e\<close> with the value \<open>m * 10 ^ e\<close>. A float is kept as the text it
  was read from, so its value is taken as the value of that decimal text, and its text
  in a column of affinity \<^verbatim>\<open>TEXT\<close> as that text; \<^verbatim>\<open>NaN\<close> is stored as \<^verbatim>\<open>NULL\<close>.
\<close>

datatype affinity = TEXT | INTEGER

definition sign_of :: "ustr \<Rightarrow> bool \<times> ustr" where
  "sign_of s =
     (case s of
        [] \<Rightarrow> (False, [])
      | c # r \<Rightarrow> if c = 45 then (True, r) else if c = 43 then (False, r) else (False, s))"

definition sqlite_number :: "ustr \<Rightarrow> (bool \<times> int \<times> int) option" where
  "sqlite_number s =
     (let t = rev (dropWhile ascii_space (rev (dropWhile ascii_space s)));
          (neg, t1) = sign_of t;
          ip = takeWhile is_digit t1;
          r1 = dropWhile is_digit t1;
          (dot, fp, r2) =
            (case r1 of
               [] \<Rightarrow> (False, [], [])
             | c # r \<Rightarrow>
                 if c = 46 then (True, takeWhile is_digit r, dropWhile is_digit r)
                 else (False, [], r1));
          m = (if neg then - int (digits_value (ip @ fp)) else int (digits_value (ip @ fp)))
      in if ip @ fp = [] then None
         else
           (case r2 of
              [] \<Rightarrow> Some (\<not> dot, m, - int (length fp))
            | c # r \<Rightarrow>
                if c = 101 \<or> c = 69 then
                  (let (eneg, ed) = sign_of r
                   in if ed \<noteq> [] \<and> list_all is_digit ed then
                        Some (False, m,
                          (if eneg then - int (digits_value ed) else int (digits_value ed))
                          - int (length fp))
                      else None)
                else None))"

definition decimal_int :: "int \<Rightarrow> int \<Rightarrow> int option" where
  "decimal_int m e =
     (if 0 \<le> e then Some (m * 10 ^ nat e)
      else if m mod 10 ^ nat (- e) = 0 then Some (m div 10 ^ nat (- e))
      else None)"

definition integer_affinity :: "ustr \<Rightarrow> pyval \<Rightarrow> pyval" where
  "integer_affinity s unchanged =
     (case sqlite_number s of
        None \<Rightarrow> unchanged
      | Some (integer_form, m, e) \<Rightarrow>
          (case decimal_int m e of
             None \<Rightarrow> PFloat s
           | Some n \<Rightarrow>
               if integer_form \<and> int64 n then PInt n
               else if \<not> integer_form \<and> - (2 ^ 63) < n \<and> n < 2 ^ 63 - 1 then PInt n
               else PFloat s))"

definition sqlite_value :: "affinity \<Rightarrow> pyval \<Rightarrow> pyval" where
  "sqlite_value a v =
     (case v of
        PNone \<Rightarrow> PNone
      | PBool b \<Rightarrow>
          (case a of
             TEXT \<Rightarrow> PStr (if b then ustr ''1'' else ustr ''0'')
           | INTEGER \<Rightarrow> PInt (if b then 1 else 0))
      | PInt n \<Rightarrow> (case a of TEXT \<Rightarrow> PStr (dec_int n) | INTEGER \<Rightarrow> PInt n)
      | PFloat x \<Rightarrow>
          if x = ustr ''NaN'' then PNone
          else
            (case a of
               TEXT \<Rightarrow>
                 PStr (if x = ustr ''Infinity'' then ustr ''Inf''
                       else if x = ustr ''-Infinity'' then ustr ''-Inf'' else x)
             | INTEGER \<Rightarrow> integer_affinity x (PFloat x))
      | PStr s \<Rightarrow> (case a of TEXT \<Rightarrow> PStr s | INTEGER \<Rightarrow> integer_affinity s (PStr s))
      | _ \<Rightarrow> v)"

text \<open>
  \<^verbatim>\<open>column.ilike(pattern)\<close>, which SQLite evaluates as \<^verbatim>\<open>lower(column) LIKE lower(pattern)\<close>:
  in the pattern \<^verbatim>\<open>%\<close> stands for any text and \<^verbatim>\<open>_\<close> for any one character;
  letters are compared without case in the ASCII range.
\<close>

definition sql_lower :: "nat \<Rightarrow> nat" where
  "sql_lower c = (if 65 \<le> c \<and> c \<le> 90 then c + 32 else c)"

fun like :: "ustr \<Rightarrow> ustr \<Rightarrow> bool" where
  "like [] s = (s = [])"
| "like (p # ps) [] = (p = 37 \<and> like ps [])"
| "like (p # ps) (c # cs) =
     (if p = 37 then like ps (c # cs) \<or> like (p # ps) cs
      else (p = 95 \<or> sql_lower p = sql_lower c) \<and> like ps cs)"

definition ilike :: "pyval \<Rightarrow> ustr \<Rightarrow> bool" where
  "ilike column pattern =
     (case column of PStr s \<Rightarrow> like (map sql_lower pattern) (map sql_lower s) | _ \<Rightarrow> False)"

text \<open>The pattern of the f-string \<^verbatim>\<open>f'%{x}%'\<close>.\<close>

definition percent :: "ustr \<Rightarrow> ustr" where
  "percent x = [37] @ x @ [37]"

text \<open>
  \<^verbatim>\<open>column >= n\<close> on a score: \<^verbatim>\<open>NULL\<close> compares to nothing, a number by its
  value, and a text is above every number.
\<close>

definition score_ge :: "pyval \<Rightarrow> int \<Rightarrow> bool" where
  "score_ge column n =
     (case column of
        PInt i \<Rightarrow> n \<le> i
      | PBool b \<Rightarrow> n \<le> (if b then 1 else 0)
      | PFloat x \<Rightarrow>
          (if x = ustr ''Infinity'' then True
           else
             (case sqlite_number x of
                None \<Rightarrow> False
              | Some (integer_form, m, e) \<Rightarrow>
                  if 0 \<le> e then n \<le> m * 10 ^ nat e else n * 10 ^ nat (- e) \<le> m))
      | PStr s \<Rightarrow> True
      | _ \<Rightarrow> False)"

text \<open>
  \<^verbatim>\<open>query.paginate(page=page, per_page=per_page, error_out=False)\<close> of Flask-SQLAlchemy 3:
  without \<^verbatim>\<open>error_out\<close> a page below 1 counts as page 1 and a page size below 1 as 20.
  The items are selected with \<^verbatim>\<open>LIMIT\<close> and \<^verbatim>\<open>OFFSET\<close>, which are bound to the
  statement.
\<close>

record Pagination =
  items :: "DeveloperTool list"
  total :: int
  pages :: int
  has_next :: bool
  has_prev :: bool

definition paginate :: "table \<Rightarrow> int \<Rightarrow> int \<Rightarrow> exn + Pagination" where
  "paginate query page per_page =
     (let page1 = (if page < 1 then 1 else page);
          per_page1 = (if per_page < 1 then 20 else per_page);
          n = int (length query);
          np = (if n = 0 then 0 else (n + per_page1 - 1) div per_page1)
      in case first_bind_error [PInt per_page1, PInt ((page1 - 1) * per_page1)] of
           Some e \<Rightarrow> Inl e
         | None \<Rightarrow>
             Inr \<lparr> items = take (nat per_page1) (drop (nat ((page1 - 1) * per_page1)) query),
                   total = n,
                   pages = np,
                   has_next = (page1 < np),
                   has_prev = (1 < page1) \<rparr>)"

text \<open>
  The columns an \<^verbatim>\<open>INSERT\<close> or \<^verbatim>\<open>UPDATE\<close> writes from the instance's attributes, in
  the order of the table, and the row as the table keeps it.
\<close>

definition columns :: "(DeveloperTool \<Rightarrow> pyval) list" where
  "columns =
     [name, category, description, url, frameworks, supported_languages, features,
      native_integrations, verified_integrations, notable_strengths, known_limitations,
      maturity_score, popularity_score, pricing]"

definition stored :: "DeveloperTool \<Rightarrow> DeveloperTool" where
  "stored tool =
     tool
     \<lparr> name := sqlite_value TEXT (name tool),
       category := sqlite_value TEXT (category tool),
       description := sqlite_value TEXT (description tool),
       url := sqlite_value TEXT (url tool),
       frameworks := sqlite_value TEXT (frameworks tool),
       supported_languages := sqlite_value TEXT (supported_languages tool),
       features := sqlite_value TEXT (features tool),
       native_integrations := sqlite_value TEXT (native_integrations tool),
       verified_integrations := sqlite_value TEXT (verified_integrations tool),
       notable_strengths := sqlite_value TEXT (notable_strengths tool),
       known_limitations := sqlite_value TEXT (known_limitations tool),
       maturity_score := sqlite_value INTEGER (maturity_score tool),
       popularity_score := sqlite_value INTEGER (popularity_score tool),
       pricing := sqlite_value TEXT (pricing tool) \<rparr>"

definition next_id :: "table \<Rightarrow> int" where
  "next_id store = 1 + foldr max (map (\<lambda>t. case id' t of None \<Rightarrow> 0 | Some i \<Rightarrow> i) store) 0"

text \<open>
  \<^verbatim>\<open>db.session.add(tool)\<close> and \<^verbatim>\<open>db.session.commit()\<close> of a new instance at the time
  \<open>now\<close>: the row gets the next primary key and both timestamps. \<^verbatim>\<open>name\<close> and
  \<^verbatim>\<open>category\<close> are \<^verbatim>\<open>NOT NULL\<close>, \<^verbatim>\<open>name\<close> is \<^verbatim>\<open>UNIQUE\<close>. The commit expires
  the instance, so what is read from it afterwards is the row.
\<close>

definition insert_row :: "datetime \<Rightarrow> table \<Rightarrow> DeveloperTool \<Rightarrow> exn + DeveloperTool \<times> table" where
  "insert_row now store tool =
     (case first_bind_error (map (\<lambda>col. col tool) columns) of
        Some e \<Rightarrow> Inl e
      | None \<Rightarrow>
          (let row = (stored tool)\<lparr> id' := Some (next_id store), created_at := Some now,
                                      updated_at := Some now \<rparr>
           in if name row = PNone \<or> category row = PNone then Inl IntegrityError
              else if list_ex (\<lambda>t. name t = name row) store then Inl IntegrityError
              else Inr (row, store @ [row])))"

text \<open>
  \<^verbatim>\<open>db.session.commit()\<close> after attributes of the loaded instance \<open>old\<close> were
  assigned, giving \<open>new\<close>. The session writes the columns whose value is no longer
  the loaded one, and issues no \<^verbatim>\<open>UPDATE\<close> when there is none; \<^verbatim>\<open>onupdate\<close> sets
  \<^verbatim>\<open>updated_at\<close> in the \<^verbatim>\<open>UPDATE\<close> it issues. Two values are the same when they
  are equal in the model. \<open>written\<close> is the instance with the columns that are written
  as the table keeps them.
\<close>

definition written :: "DeveloperTool \<Rightarrow> DeveloperTool \<Rightarrow> DeveloperTool" where
  "written old new =
     new
     \<lparr> name := (if name new = name old then name old else name (stored new)),
       category := (if category new = category old then category old else category (stored new)),
       description :=
         (if description new = description old then description old
          else description (stored new)),
       url := (if url new = url old then url old else url (stored new)),
       frameworks :=
         (if frameworks new = frameworks old then frameworks old else frameworks (stored new)),
       supported_languages :=
         (if supported_languages new = supported_languages old then supported_languages old
          else supported_languages (stored new)),
       features := (if features new = features old then features old else features (stored new)),
       native_integrations :=
         (if native_integrations new = native_integrations old then native_integrations old
          else native_integrations (stored new)),
       verified_integrations :=
         (if verified_integrations new = verified_integrations old then verified_integrations old
          else verified_integrations (stored new)),
       notable_strengths :=
         (if notable_strengths new = notable_strengths old then notable_strengths old
          else notable_strengths (stored new)),
       known_limitations :=
         (if known_limitations new = known_limitations old then known_limitations old
          else known_limitations (stored new)),
       maturity_score :=
         (if maturity_score new = maturity_score old then maturity_score old
          else maturity_score (stored new)),
       popularity_score :=
         (if popularity_score new = popularity_score old then popularity_score old
          else popularity_score (stored new)),
       pricing := (if pricing new = pricing old then pricing old else pricing (stored new)) \<rparr>"

definition update_row :: "datetime \<Rightarrow> table \<Rightarrow> DeveloperTool \<Rightarrow> DeveloperTool \<Rightarrow> exn + DeveloperTool \<times> table" where
  "update_row now store old new =
     (let changed = filter (\<lambda>col. col new \<noteq> col old) columns
      in if changed = [] then Inr (new, store)
         else
           (case first_bind_error (map (\<lambda>col. col new) changed) of
              Some e \<Rightarrow> Inl e
            | None \<Rightarrow>
                (let row = (written old new)\<lparr> updated_at := Some now \<rparr>
                 in if name row = PNone \<or> category row = PNone then Inl IntegrityError
                    else if name row \<noteq> name old
                            \<and> list_ex (\<lambda>t. id' t \<noteq> id' old \<and> name t = name row) store
                      then Inl IntegrityError
                    else Inr (row, map (\<lambda>t. if id' t = id' old then row else t) store))))"

section \<open>The endpoints (routes/tools.py)\<close>

text \<open>
  A view returns \<^verbatim>\<open>jsonify(body), status\<close>; \<^verbatim>\<open>get_or_404\<close> aborts with 404. An
  exception that no handler catches is the left summand of the result. The query string
  \<^verbatim>\<open>request.args\<close> maps names to texts; the body \<^verbatim>\<open>request.json\<close> is a JSON object.
  \<open>lim\<close> is the number of levels of recursion that the interpreter leaves to the
  decoder when a view serializes a record.
\<close>

datatype response = Response nat "(ustr \<times> pyval) list" | NotFound

definition status_code :: "response \<Rightarrow> nat" where
  "status_code r = (case r of Response code _ \<Rightarrow> code | NotFound \<Rightarrow> 404)"

definition ascii_lower :: "ustr \<Rightarrow> ustr" where
  "ascii_lower s = map sql_lower s"

definition text_filter :: "ustr \<Rightarrow> DeveloperTool \<Rightarrow> bool" where
  "text_filter q t =
     (ilike (name t) (percent q) \<or> ilike (description t) (percent q)
      \<or> ilike (features t) (percent q))"

text \<open>
  \<^verbatim>\<open>get_tools\<close>: \<open>list_query\<close> is the query with its filters applied, before it is
  paginated. \<^verbatim>\<open>summary.lower()\<close> is compared with \<^verbatim>\<open>'true'\<close> only, which no
  character outside ASCII lowers into.
\<close>

definition list_query :: "table \<Rightarrow> (ustr \<rightharpoonup> ustr) \<Rightarrow> table" where
  "list_query store args =
     (let query0 = store;
          query1 =
            (case args (ustr ''category'') of
               None \<Rightarrow> query0
             | Some c \<Rightarrow>
                 if c \<noteq> [] then filter (\<lambda>t. ilike (category t) (percent c)) query0 else query0);
          query2 =
            (case args (ustr ''search'') of
               None \<Rightarrow> query1
             | Some q \<Rightarrow> if q \<noteq> [] then filter (text_filter q) query1 else query1)
      in query2)"

definition get_tools :: "nat \<Rightarrow> table \<Rightarrow> (ustr \<rightharpoonup> ustr) \<Rightarrow> exn + response" where
  "get_tools lim store args =
     (case (case args (ustr ''page'') of None \<Rightarrow> Some 1 | Some s \<Rightarrow> py_int s) of
        None \<Rightarrow> Inl ValueError
      | Some page \<Rightarrow>
          (case (case args (ustr ''per_page'') of None \<Rightarrow> Some 20 | Some s \<Rightarrow> py_int s) of
             None \<Rightarrow> Inl ValueError
           | Some n \<Rightarrow>
               (let per_page = min n 100;
                    summary =
                      (ascii_lower
                         (case args (ustr ''summary'') of None \<Rightarrow> ustr ''false'' | Some s \<Rightarrow> s)
                       = ustr ''true'');
                    query = list_query store args
                in and_then (paginate query page per_page) (\<lambda>pagination.
                   and_then
                     (if summary then Inr (map to_summary_dict (items pagination))
                      else map_result (to_dict lim) (items pagination)) (\<lambda>tools_data.
                   Inr (Response 200
                     [(ustr ''tools'', PList (map PDict tools_data)),
                      (ustr ''pagination'',
                       PDict
                         [(ustr ''page'', PInt page),
                          (ustr ''per_page'', PInt per_page),
                          (ustr ''total'', PInt (total pagination)),
                          (ustr ''pages'', PInt (pages pagination)),
                          (ustr ''has_next'', PBool (has_next pagination)),
                          (ustr ''has_prev'', PBool (has_prev pagination))])]))))))"

text \<open>
  \<^verbatim>\<open>search_tools\<close>. \<^verbatim>\<open>request.args.get(key, type=int)\<close> is \<^verbatim>\<open>None\<close> when the
  parameter is missing or is not an integer. \<open>search_query\<close> is the query with its
  filters, \<open>search_parameters\<close> the two minimums among the parameters bound to its
  statement when \<^verbatim>\<open>query.all()\<close> runs it.
\<close>

definition split_arg :: "ustr option \<Rightarrow> ustr list" where
  "split_arg a = (case a of None \<Rightarrow> [] | Some s \<Rightarrow> if s \<noteq> [] then py_split 44 s else [])"

definition int_arg :: "ustr option \<Rightarrow> int option" where
  "int_arg a = (case a of None \<Rightarrow> None | Some s \<Rightarrow> py_int s)"

definition member_filters :: "ustr list \<Rightarrow> ustr list" where
  "member_filters members = map strip (filter (\<lambda>m. strip m \<noteq> []) members)"

definition search_query :: "table \<Rightarrow> (ustr \<rightharpoonup> ustr) \<Rightarrow> table" where
  "search_query store args =
     (let query_text = (case args (ustr ''q'') of None \<Rightarrow> [] | Some s \<Rightarrow> s);
          q_category = args (ustr ''category'');
          min_maturity = int_arg (args (ustr ''min_maturity''));
          min_popularity = int_arg (args (ustr ''min_popularity''));
          q_frameworks = split_arg (args (ustr ''frameworks''));
          q_languages = split_arg (args (ustr ''languages''));
          query0 = store;
          query1 = (if query_text \<noteq> [] then filter (text_filter query_text) query0 else query0);
          query2 =
            (case q_category of
               None \<Rightarrow> query1
             | Some c \<Rightarrow>
                 if c \<noteq> [] then filter (\<lambda>t. ilike (category t) (percent c)) query1 else query1);
          query3 =
            (case min_maturity of
               None \<Rightarrow> query2
             | Some m \<Rightarrow>
                 if m \<noteq> 0 then filter (\<lambda>t. score_ge (maturity_score t) m) query2 else query2);
          query4 =
            (case min_popularity of
               None \<Rightarrow> query3
             | Some m \<Rightarrow>
                 if m \<noteq> 0 then filter (\<lambda>t. score_ge (popularity_score t) m) query3 else query3);
          query5 =
            (if q_frameworks \<noteq> [] then
               (let framework_filters = member_filters q_frameworks
                in if framework_filters \<noteq> [] then
                     filter (\<lambda>t. list_ex (\<lambda>f. ilike (frameworks t) (percent f)) framework_filters)
                       query4
                   else query4)
             else query4);
          query6 =
            (if q_languages \<noteq> [] then
               (let language_filters = member_filters q_languages
                in if language_filters \<noteq> [] then
                     filter
                       (\<lambda>t. list_ex (\<lambda>l. ilike (supported_languages t) (percent l)) language_filters)
                       query5
                   else query5)
             else query5)
      in query6)"

definition search_parameters :: "(ustr \<rightharpoonup> ustr) \<Rightarrow> pyval list" where
  "search_parameters args =
     (case int_arg (args (ustr ''min_maturity'')) of
        None \<Rightarrow> []
      | Some m \<Rightarrow> if m \<noteq> 0 then [PInt m] else [])
     @ (case int_arg (args (ustr ''min_popularity'')) of
          None \<Rightarrow> []
        | Some m \<Rightarrow> if m \<noteq> 0 then [PInt m] else [])"

definition search_tools :: "nat \<Rightarrow> table \<Rightarrow> (ustr \<rightharpoonup> ustr) \<Rightarrow> exn + response" where
  "search_tools lim store args =
     (case first_bind_error (search_parameters args) of
        Some e \<Rightarrow> Inl e
      | None \<Rightarrow>
          (let tools = search_query store args
           in and_then (map_result (to_dict lim) tools) (\<lambda>tools_data.
              Inr (Response 200
                [(ustr ''tools'', PList (map PDict tools_data)),
                 (ustr ''count'', PInt (int (length tools)))]))))"

text \<open>
  \<^verbatim>\<open>create_tool\<close> at the time \<open>now\<close>: the response and the table after the request.
  The name is looked up by a comparison with the column, to which its value is bound.
\<close>

definition create_tool :: "nat \<Rightarrow> datetime \<Rightarrow> table \<Rightarrow> (ustr \<times> pyval) list \<Rightarrow> (exn + response) \<times> table" where
  "create_tool lim now store data =
     (if \<not> truthy (dict_get data (ustr ''name'')) \<or> \<not> truthy (dict_get data (ustr ''category''))
      then (Inr (Response 400 [(ustr ''error'', PStr (ustr ''Name and category are required''))]),
            store)
      else
        (case bind_error (dict_get data (ustr ''name'')) of
           Some e \<Rightarrow> (Inl e, store)
         | None \<Rightarrow>
             (case find (\<lambda>t. name t = sqlite_value TEXT (dict_get data (ustr ''name''))) store of
                Some existing_tool \<Rightarrow>
                  (Inr (Response 409
                     [(ustr ''error'', PStr (ustr ''Tool with this name already exists''))]),
                   store)
              | None \<Rightarrow>
                  (case insert_row now store (from_dict data) of
                     Inl e \<Rightarrow> (Inl e, store)
                   | Inr (tool, store1) \<Rightarrow>
                       (and_then (to_dict lim tool) (\<lambda>body. Inr (Response 201 body)), store1)))))"

text \<open>
  \<^verbatim>\<open>update_tool\<close>: \<^verbatim>\<open>get_or_404\<close> looks the record up by its primary key, to which
  \<open>tool_id\<close> is bound; then the assignments to the loaded instance and the commit.
\<close>

definition assign :: "(ustr \<times> pyval) list \<Rightarrow> ustr \<Rightarrow> pyval \<Rightarrow> pyval" where
  "assign data key old = (if dict_in key data then dict_get data key else old)"

definition assign_json :: "(ustr \<times> pyval) list \<Rightarrow> ustr \<Rightarrow> pyval \<Rightarrow> pyval" where
  "assign_json data key old =
     (if dict_in key data then serialize_json_field (dict_get data key) else old)"

definition update_fields :: "DeveloperTool \<Rightarrow> (ustr \<times> pyval) list \<Rightarrow> DeveloperTool" where
  "update_fields tool data =
     tool
     \<lparr> name := assign data (ustr ''name'') (name tool),
       category := assign data (ustr ''category'') (category tool),
       description := assign data (ustr ''description'') (description tool),
       url := assign data (ustr ''url'') (url tool),
       frameworks := assign_json data (ustr ''frameworks'') (frameworks tool),
       supported_languages :=
         assign_json data (ustr ''supported_languages'') (supported_languages tool),
       features := assign_json data (ustr ''features'') (features tool),
       native_integrations :=
         assign_json data (ustr ''native_integrations'') (native_integrations tool),
       verified_integrations :=
         assign_json data (ustr ''verified_integrations'') (verified_integrations tool),
       notable_strengths := assign_json data (ustr ''notable_strengths'') (notable_strengths tool),
       known_limitations := assign_json data (ustr ''known_limitations'') (known_limitations tool),
       maturity_score := assign data (ustr ''maturity_score'') (maturity_score tool),
       popularity_score := assign data (ustr ''popularity_score'') (popularity_score tool),
       pricing := assign data (ustr ''pricing'') (pricing tool) \<rparr>"

definition update_tool :: "nat \<Rightarrow> datetime \<Rightarrow> table \<Rightarrow> int \<Rightarrow> (ustr \<times> pyval) list \<Rightarrow> (exn + response) \<times> table" where
  "update_tool lim now store tool_id data =
     (case bind_error (PInt tool_id) of
        Some e \<Rightarrow> (Inl e, store)
      | None \<Rightarrow>
          (case find (\<lambda>t. id' t = Some tool_id) store of
             None \<Rightarrow> (Inr NotFound, store)
           | Some tool \<Rightarrow>
               (case update_row now store tool (update_fields tool data) of
                  Inl e \<Rightarrow> (Inl e, store)
                | Inr (tool1, store1) \<Rightarrow>
                    (and_then (to_dict lim tool1) (\<lambda>body. Inr (Response 200 body)), store1))))"

section \<open>Reading a payload, a record and a response\<close>

text \<open>
  The keys of a payload with the column each one is assigned to: the seven columns that
  hold an array as a text, and the seven that are copied.
\<close>

definition array_fields :: "(ustr \<times> (DeveloperTool \<Rightarrow> pyval)) list" where
  "array_fields =
     [(ustr ''frameworks'', frameworks),
      (ustr ''supported_languages'', supported_languages),
      (ustr ''features'', features),
      (ustr ''native_integrations'', native_integrations),
      (ustr ''verified_integrations'', verified_integrations),
      (ustr ''notable_strengths'', notable_strengths),
      (ustr ''known_limitations'', known_limitations)]"

definition scalar_fields :: "(ustr \<times> (DeveloperTool \<Rightarrow> pyval)) list" where
  "scalar_fields =
     [(ustr ''name'', name),
      (ustr ''category'', category),
      (ustr ''description'', description),
      (ustr ''url'', url),
      (ustr ''maturity_score'', maturity_score),
      (ustr ''popularity_score'', popularity_score),
      (ustr ''pricing'', pricing)]"

text \<open>The scalar columns that hold a text.\<close>

definition text_fields :: "(ustr \<times> (DeveloperTool \<Rightarrow> pyval)) list" where
  "text_fields =
     [(ustr ''name'', name),
      (ustr ''category'', category),
      (ustr ''description'', description),
      (ustr ''url'', url),
      (ustr ''pricing'', pricing)]"

text \<open>
  A payload holds values of the columns' types when what it gives for a column of texts
  is a text or \<^verbatim>\<open>None\<close>, for a score an integer of 64 bits or \<^verbatim>\<open>None\<close>, and for an
  array field a list, a text or \<^verbatim>\<open>None\<close>. These are the values that a row keeps as
  they are given.
\<close>

definition text_value :: "pyval \<Rightarrow> bool" where
  "text_value v = (case v of PNone \<Rightarrow> True | PStr s \<Rightarrow> True | _ \<Rightarrow> False)"

definition score_value :: "pyval \<Rightarrow> bool" where
  "score_value v = (case v of PNone \<Rightarrow> True | PInt n \<Rightarrow> int64 n | _ \<Rightarrow> False)"

definition array_value :: "pyval \<Rightarrow> bool" where
  "array_value v = (case v of PNone \<Rightarrow> True | PStr s \<Rightarrow> True | PList xs \<Rightarrow> True | _ \<Rightarrow> False)"

definition typed_payload :: "(ustr \<times> pyval) list \<Rightarrow> bool" where
  "typed_payload data =
     (list_all (\<lambda>(k, col). text_value (dict_get data k)) text_fields
      \<and> score_value (dict_get data (ustr ''maturity_score''))
      \<and> score_value (dict_get data (ustr ''popularity_score''))
      \<and> list_all (\<lambda>(k, col). array_value (dict_get data k)) array_fields)"

text \<open>A record serializes when \<^verbatim>\<open>to_dict\<close> raises nothing on it.\<close>

definition serializes :: "nat \<Rightarrow> DeveloperTool \<Rightarrow> bool" where
  "serializes lim t = (case to_dict lim t of Inl e \<Rightarrow> False | Inr d \<Rightarrow> True)"

text \<open>
  The list under \<^verbatim>\<open>tools\<close> and an entry of the object under \<^verbatim>\<open>pagination\<close> in the
  body of a response.
\<close>

definition tools_of :: "exn + response \<Rightarrow> pyval list option" where
  "tools_of r =
     (case r of
        Inr (Response code body) \<Rightarrow>
          (case map_of body (ustr ''tools'') of Some (PList ts) \<Rightarrow> Some ts | _ \<Rightarrow> None)
      | _ \<Rightarrow> None)"

definition pagination_of :: "exn + response \<Rightarrow> ustr \<Rightarrow> pyval option" where
  "pagination_of r k =
     (case r of
        Inr (Response code body) \<Rightarrow>
          (case map_of body (ustr ''pagination'') of Some (PDict d) \<Rightarrow> map_of d k | _ \<Rightarrow> None)
      | _ \<Rightarrow> None)"

text \<open>The \<^verbatim>\<open>page\<close> and \<^verbatim>\<open>per_page\<close> a request asks for, read as \<^verbatim>\<open>get_tools\<close> reads them.\<close>

definition page_arg :: "(ustr \<rightharpoonup> ustr) \<Rightarrow> int option" where
  "page_arg args = (case args (ustr ''page'') of None \<Rightarrow> Some 1 | Some s \<Rightarrow> py_int s)"

definition per_page_arg :: "(ustr \<rightharpoonup> ustr) \<Rightarrow> int option" where
  "per_page_arg args = (case args (ustr ''per_page'') of None \<Rightarrow> Some 20 | Some s \<Rightarrow> py_int s)"

text \<open>
  The page size and the offset that the pagination selects the items with, for the page
  \<open>p\<close> and the page size \<open>n\<close> that a request asks for.
\<close>

definition page_size :: "int \<Rightarrow> int" where
  "page_size n = (if min n 100 < 1 then 20 else min n 100)"

definition page_offset :: "int \<Rightarrow> int \<Rightarrow> int" where
  "page_offset p n = ((if p < 1 then 1 else p) - 1) * page_size n"

definition summary_arg :: "(ustr \<rightharpoonup> ustr) \<Rightarrow> bool" where
  "summary_arg args =
     (ascii_lower (case args (ustr ''summary'') of None \<Rightarrow> ustr ''false'' | Some s \<Rightarrow> s)
      = ustr ''true'')"

section \<open>The search contract, in the words of the spec\<close>

text \<open>
  The spec's \<^verbatim>\<open>search(criteria)\<close>: the criteria that may be given, and a record
  satisfies them when it satisfies every one that is given; the lists of frameworks and
  of languages are satisfied by a match of any member. \<open>matches x column\<close> says when
  the text \<open>x\<close> matches the stored value of a column: the spec's matching is
  \<open>substring_ci\<close>, the containment of \<open>x\<close> in the stored text without regard to the
  case of ASCII letters.
\<close>

record criteria =
  c_text :: "ustr option"
  c_category :: "ustr option"
  c_min_maturity :: "int option"
  c_min_popularity :: "int option"
  c_frameworks :: "ustr list"
  c_languages :: "ustr list"

fun is_substring :: "ustr \<Rightarrow> ustr \<Rightarrow> bool" where
  "is_substring x [] = (x = [])"
| "is_substring x (c # s) = (startswith (c # s) x \<or> is_substring x s)"

definition substring_ci :: "ustr \<Rightarrow> pyval \<Rightarrow> bool" where
  "substring_ci x column =
     (case column of
        PStr s \<Rightarrow> is_substring (map sql_lower x) (map sql_lower s)
      | _ \<Rightarrow> False)"

definition satisfies :: "(ustr \<Rightarrow> pyval \<Rightarrow> bool) \<Rightarrow> criteria \<Rightarrow> DeveloperTool \<Rightarrow> bool" where
  "satisfies matches c t =
     ((case c_text c of
         None \<Rightarrow> True
       | Some q \<Rightarrow> matches q (name t) \<or> matches q (description t) \<or> matches q (features t))
      \<and> (case c_category c of None \<Rightarrow> True | Some x \<Rightarrow> matches x (category t))
      \<and> (case c_min_maturity c of None \<Rightarrow> True | Some m \<Rightarrow> score_ge (maturity_score t) m)
      \<and> (case c_min_popularity c of None \<Rightarrow> True | Some m \<Rightarrow> score_ge (popularity_score t) m)
      \<and> (c_frameworks c = [] \<or> list_ex (\<lambda>f. matches f (frameworks t)) (c_frameworks c))
      \<and> (c_languages c = [] \<or> list_ex (\<lambda>l. matches l (supported_languages t)) (c_languages c)))"

definition search_spec :: "table \<Rightarrow> criteria \<Rightarrow> table" where
  "search_spec store c = filter (satisfies substring_ci c) store"

text \<open>
  The matching of the code, a \<^verbatim>\<open>LIKE\<close> pattern around the text, and the criteria that
  \<^verbatim>\<open>search_tools\<close> takes from a query string: a text that is empty and a minimum that
  is 0 or no integer count as not given; the members of a list are stripped, and the
  blank ones left out.
\<close>

definition like_ci :: "ustr \<Rightarrow> pyval \<Rightarrow> bool" where
  "like_ci x column = ilike column (percent x)"

definition nonempty :: "ustr option \<Rightarrow> ustr option" where
  "nonempty a = (case a of None \<Rightarrow> None | Some s \<Rightarrow> if s = [] then None else Some s)"

definition nonzero :: "int option \<Rightarrow> int option" where
  "nonzero a = (case a of None \<Rightarrow> None | Some m \<Rightarrow> if m = 0 then None else Some m)"

definition criteria_of :: "(ustr \<rightharpoonup> ustr) \<Rightarrow> criteria" where
  "criteria_of args =
     \<lparr> c_text = nonempty (args (ustr ''q'')),
       c_category = nonempty (args (ustr ''category'')),
       c_min_maturity = nonzero (int_arg (args (ustr ''min_maturity''))),
       c_min_popularity = nonzero (int_arg (args (ustr ''min_popularity''))),
       c_frameworks = member_filters (split_arg (args (ustr ''frameworks''))),
       c_languages = member_filters (split_arg (args (ustr ''languages''))) \<rparr>"

definition wildcard_free :: "ustr \<Rightarrow> bool" where
  "wildcard_free x = (37 \<notin> set x \<and> 95 \<notin> set x)"

definition wildcard_free_criteria :: "criteria \<Rightarrow> bool" where
  "wildcard_free_criteria c =
     ((case c_text c of None \<Rightarrow> True | Some q \<Rightarrow> wildcard_free q)
      \<and> (case c_category c of None \<Rightarrow> True | Some x \<Rightarrow> wildcard_free x)
      \<and> list_all wildcard_free (c_frameworks c)
      \<and> list_all wildcard_free (c_languages c))"

section \<open>Properties of the entity model\<close>

text \<open>
  The decoder within the interpreter's limits: on a text that is no longer than the limit
  of digits and than the levels of recursion left, it raises nothing but
  \<^verbatim>\<open>JSONDecodeError\<close>. An array or an object takes a character of the text for each
  level it enters, and an integer one for each digit.
\<close>

lemma match_integer_length:
  "match_integer s = Some (i, r) \<Longrightarrow> length i \<le> length s"
  by (auto simp: match_integer_def match_digits_def Let_def
      intro: le_trans [OF length_takeWhile_le]
      split: list.splits if_splits prod.splits)

lemma match_number_within:
  assumes "match_number s = Some (Inl e, r)"
  shows "max_str_digits < length s"
proof -
  from assms obtain i s1 where i: "match_integer s = Some (i, s1)"
    by (auto simp: match_number_def split: option.splits)
  from assms i have "max_str_digits < length (filter is_digit i)"
    by (auto simp: match_number_def number_value_def Let_def split: prod.splits if_splits)
  also have "\<dots> \<le> length i" by simp
  also have "\<dots> \<le> length s" using i by (rule match_integer_length)
  finally show ?thesis .
qed

lemma scan_once_within_limits:
  "length s \<le> lim \<Longrightarrow> length s \<le> max_str_digits \<Longrightarrow> scan_once lim s = Inl e
     \<Longrightarrow> e = JSONDecodeError"
  "length s \<le> lim \<Longrightarrow> length s \<le> max_str_digits \<Longrightarrow> JSONArray lim vs s = Inl e
     \<Longrightarrow> e = JSONDecodeError"
  "length s \<le> lim \<Longrightarrow> length s \<le> max_str_digits \<Longrightarrow> JSONObject lim ps s = Inl e
     \<Longrightarrow> e = JSONDecodeError"
proof (induction lim s and lim vs s and lim ps s arbitrary: e and e and e
    rule: scan_once_JSONArray_JSONObject.induct)
  case 1
  then show ?case by simp
next
  case (2 lim c s)
  from "2.prems" have l0: "lim \<noteq> 0" by auto
  have le: "length (skip_ws s) \<le> length s" by (rule length_skip_ws)
  with "2.prems" have b: "length (skip_ws s) \<le> lim - 1" "length (skip_ws s) \<le> max_str_digits"
    by simp_all
  show ?case
  proof (cases "c = 34")
    case True
    with "2.prems" show ?thesis by (auto split: option.splits)
  next
    case n34: False
    show ?thesis
    proof (cases "c = 123")
      case True
      show ?thesis
      proof (cases "skip_ws s")
        case Nil
        with True n34 l0 "2.prems" show ?thesis by simp
      next
        case (Cons d r0)
        show ?thesis
        proof (cases "d = 125")
          case True
          with \<open>c = 123\<close> n34 l0 Cons "2.prems" show ?thesis by auto
        next
          case False
          with \<open>c = 123\<close> n34 l0 Cons "2.prems"
          have "JSONObject (lim - 1) [] (skip_ws s) = Inl e" by simp
          from "2.IH"(1) [OF n34 \<open>c = 123\<close> l0 Cons False b this] show ?thesis .
        qed
      qed
    next
      case n123: False
      show ?thesis
      proof (cases "c = 91")
        case True
        show ?thesis
        proof (cases "skip_ws s")
          case Nil
          with True n34 n123 l0 "2.prems" show ?thesis by simp
        next
          case (Cons d r0)
          show ?thesis
          proof (cases "d = 93")
            case True
            with \<open>c = 91\<close> n34 n123 l0 Cons "2.prems" show ?thesis by auto
          next
            case False
            with \<open>c = 91\<close> n34 n123 l0 Cons "2.prems"
            have "JSONArray (lim - 1) [] (skip_ws s) = Inl e" by simp
            from "2.IH"(2) [OF n34 n123 \<open>c = 91\<close> l0 Cons False b this] show ?thesis .
          qed
        qed
      next
        case n91: False
        have "\<And>r. match_number (c # s) \<noteq> Some (Inl e, r)"
          using match_number_within [of "c # s" e] "2.prems"(2) by fastforce
        with n34 n123 n91 "2.prems"(3) show ?thesis
          by (auto split: if_splits option.splits sum.splits prod.splits)
      qed
    qed
  qed
next
  case (3 lim vs s)
  show ?case
  proof (cases "scan_once lim s")
    case (Inl e0)
    with "3.prems" have "e0 = e" by simp
    with Inl "3.IH"(1) [OF "3.prems"(1,2)] show ?thesis by simp
  next
    case (Inr p)
    obtain v0 r0 where p: "p = (v0, r0)" by (cases p)
    with Inr have a: "scan_once lim s = Inr (v0, r0)" by simp
    have b: "length r0 < length s" using a by (rule scan_once_shorter)
    show ?thesis
    proof (cases "skip_ws r0")
      case Nil
      with a b "3.prems" show ?thesis by simp
    next
      case (Cons d r')
      have c: "length (skip_ws r') < length r0" using Cons by (rule skip_ws_Cons_shorter)
      show ?thesis
      proof (cases "d = 93")
        case True
        with a b Cons "3.prems" show ?thesis by simp
      next
        case n93: False
        show ?thesis
        proof (cases "d = 44")
          case False
          with n93 a b Cons "3.prems" show ?thesis by simp
        next
          case True
          with n93 a b Cons "3.prems"
          have rec: "JSONArray lim (vs @ [v0]) (skip_ws r') = Inl e" by simp
          from b c "3.prems" have "length (skip_ws r') \<le> lim"
            "length (skip_ws r') \<le> max_str_digits" by simp_all
          from "3.IH"(2) [OF a refl b Cons n93 True this rec] show ?thesis .
        qed
      qed
    qed
  qed
next
  case (4 lim ps s)
  show ?case
  proof (cases s)
    case Nil
    with "4.prems" show ?thesis by simp
  next
    case (Cons q s1)
    show ?thesis
    proof (cases "q \<noteq> 34")
      case True
      with Cons "4.prems" show ?thesis by simp
    next
      case q: False
      show ?thesis
      proof (cases "scanstring [] s1")
        case None
        with Cons q "4.prems" show ?thesis by simp
      next
        case (Some ks)
        obtain key s2 where ks: "ks = (key, s2)" by (cases ks)
        with Some have k: "scanstring [] s1 = Some (key, s2)" by simp
        have k1: "length s2 < length s1" using k by (rule scanstring_shorter)
        show ?thesis
        proof (cases "skip_ws s2")
          case Nil
          with Cons q k "4.prems" show ?thesis by simp
        next
          case c: (Cons colon s3)
          have c1: "length (skip_ws s3) < length s2" using c by (rule skip_ws_Cons_shorter)
          show ?thesis
          proof (cases "colon \<noteq> 58")
            case True
            with Cons q k c "4.prems" show ?thesis by simp
          next
            case col: False
            from k1 c1 Cons "4.prems" have lim3: "length (skip_ws s3) \<le> lim"
              "length (skip_ws s3) \<le> max_str_digits" by simp_all
            show ?thesis
            proof (cases "scan_once lim (skip_ws s3)")
              case (Inl e0)
              with Cons q k c col "4.prems" have "e0 = e" by simp
              with Inl "4.IH"(1) [OF Cons q k refl c col lim3] show ?thesis by simp
            next
              case (Inr p)
              obtain v0 r0 where p: "p = (v0, r0)" by (cases p)
              with Inr have a: "scan_once lim (skip_ws s3) = Inr (v0, r0)" by simp
              have b0: "length r0 < length (skip_ws s3)" using a by (rule scan_once_shorter)
              with k1 c1 Cons have b: "length r0 < length s" by simp
              show ?thesis
              proof (cases "skip_ws r0")
                case Nil
                with Cons q k c col a b "4.prems" show ?thesis by simp
              next
                case e: (Cons d r')
                have e1: "length (skip_ws r') < length r0" using e by (rule skip_ws_Cons_shorter)
                show ?thesis
                proof (cases "d = 125")
                  case True
                  with Cons q k c col a b e "4.prems" show ?thesis by simp
                next
                  case n125: False
                  show ?thesis
                  proof (cases "d = 44")
                    case False
                    with n125 Cons q k c col a b e "4.prems" show ?thesis by simp
                  next
                    case True
                    with n125 Cons q k c col a b e "4.prems"
                    have rec: "JSONObject lim (ps @ [(key, v0)]) (skip_ws r') = Inl e" by simp
                    from b e1 "4.prems" have "length (skip_ws r') \<le> lim"
                      "length (skip_ws r') \<le> max_str_digits" by simp_all
                    from "4.IH"(2) [OF Cons q k refl c col a refl b e n125 True this rec]
                    show ?thesis .
                  qed
                qed
              qed
            qed
          qed
        qed
      qed
    qed
  qed
qed

lemma json_loads_within_limits:
  assumes "length s \<le> lim" and "length s \<le> max_str_digits" and "json_loads lim s = Inl e"
  shows "e = JSONDecodeError"
proof (cases "scan_once lim (skip_ws s)")
  case (Inl e0)
  have "length (skip_ws s) \<le> length s" by (rule length_skip_ws)
  with assms(1,2) have "length (skip_ws s) \<le> lim" "length (skip_ws s) \<le> max_str_digits"
    by simp_all
  from scan_once_within_limits(1) [OF this Inl] have "e0 = JSONDecodeError" .
  with Inl assms(3) show ?thesis by (simp add: json_loads_def split: if_splits)
next
  case (Inr p)
  with assms(3) show ?thesis by (auto simp: json_loads_def split: if_splits prod.splits)
qed

text \<open>The definitions that the simplifier unfolds to run the decoder on a given text.\<close>

lemmas json_eval = json_loads_def ustr_def skip_ws_def json_ws_def startswith_def
  match_number_def number_value_def max_str_digits_def match_integer_def match_digits_def
  match_frac_def match_exp_def parse_int_def digits_value_def is_digit_def hex_digit_def
  BACKSLASH_def dict_of_pairs_def dict_set_def

lemma last_dropWhile: "dropWhile P xs \<noteq> [] \<Longrightarrow> last (dropWhile P xs) = last xs"
  by (induction xs) (auto split: if_splits)

lemma strip_ends:
  assumes "strip s \<noteq> []"
  shows "\<not> py_isspace (hd (strip s)) \<and> \<not> py_isspace (last (strip s))"
proof -
  let ?a = "dropWhile py_isspace s"
  let ?b = "dropWhile py_isspace (rev ?a)"
  from assms have b: "?b \<noteq> []" by (simp add: strip_def)
  have a: "?a \<noteq> []"
  proof
    assume "?a = []"
    then have "?b = []" by (simp only: rev.simps dropWhile.simps)
    with b show False ..
  qed
  have "last (strip s) = hd ?b" using b by (simp add: strip_def last_rev)
  moreover have "\<not> py_isspace (hd ?b)" using b by (rule hd_dropWhile)
  moreover have "hd (strip s) = last ?b" using b by (simp add: strip_def hd_rev)
  moreover have "last ?b = last (rev ?a)" using b by (rule last_dropWhile)
  moreover have "last (rev ?a) = hd ?a" using a by (simp add: last_rev)
  moreover have "\<not> py_isspace (hd ?a)" using a by (rule hd_dropWhile)
  ultimately show ?thesis by simp
qed

lemma set_strip: "set (strip s) \<subseteq> set s"
proof
  fix x assume "x \<in> set (strip s)"
  then have "x \<in> set (dropWhile py_isspace (rev (dropWhile py_isspace s)))"
    by (simp add: strip_def)
  then have "x \<in> set (rev (dropWhile py_isspace s))" by (rule set_dropWhileD)
  then have "x \<in> set (dropWhile py_isspace s)" by simp
  then show "x \<in> set s" by (rule set_dropWhileD)
qed

lemma split_from_no_sep:
  "sep \<notin> set item \<Longrightarrow> p \<in> set (split_from sep item s) \<Longrightarrow> sep \<notin> set p"
  by (induction sep item s rule: split_from.induct) (auto split: if_splits)

lemma py_split_no_sep: "p \<in> set (py_split sep s) \<Longrightarrow> sep \<notin> set p"
  using split_from_no_sep [of sep "[]" p s] by (simp add: py_split_def)

lemma json_loads_Not_specified: "json_loads lim (ustr ''Not specified'') = Inl JSONDecodeError"
  by (simp add: json_eval)

lemma json_loads_empty: "json_loads lim [] = Inl JSONDecodeError"
  by (simp add: json_eval)

text \<open>
  Claim C1, as the code has it. \<^verbatim>\<open>_parse_json_field\<close>, which reads a stored array
  field, gives the empty sequence for \<^verbatim>\<open>None\<close>, for the empty text and for
  \<^verbatim>\<open>"Not specified"\<close>; it gives the empty sequence for every text that the decoder
  refuses as JSON (it never splits on commas), the decoded array for a text that decodes
  to one, and a sequence unchanged; and it raises nothing on a text that is no longer
  than the limit of digits and than the levels of recursion left. Splitting on commas
  is what \<^verbatim>\<open>parse_array_field\<close> of the import does to a text: the empty sequence for
  the empty text and for a text that is \<^verbatim>\<open>"Not specified"\<close> once stripped, else the
  stripped pieces between the commas that are not empty; so no element is empty, starts
  or ends with whitespace, or holds a comma.
\<close>

theorem parse_json_field_normalizes:
  "parse_json_field lim PNone = Inr (PList [])
   \<and> parse_json_field lim (PStr []) = Inr (PList [])
   \<and> parse_json_field lim (PStr (ustr ''Not specified'')) = Inr (PList [])
   \<and> (json_loads lim s = Inl JSONDecodeError \<longrightarrow> parse_json_field lim (PStr s) = Inr (PList []))
   \<and> (json_loads lim s = Inr (PList xs) \<longrightarrow> parse_json_field lim (PStr s) = Inr (PList xs))
   \<and> parse_json_field lim (PList ys) = Inr (PList ys)
   \<and> (length s \<le> lim \<and> length s \<le> max_str_digits \<longrightarrow>
        (\<exists>v. parse_json_field lim (PStr s) = Inr v))
   \<and> (\<exists>its. parse_array_field (PStr t) = Inr (PList (map PStr its))
        \<and> (t = [] \<or> strip t = ustr ''Not specified'' \<longrightarrow> its = [])
        \<and> (t \<noteq> [] \<and> strip t \<noteq> ustr ''Not specified'' \<longrightarrow>
             its = map strip (filter (\<lambda>item. strip item \<noteq> []) (py_split 44 t)))
        \<and> (\<forall>x \<in> set its. x \<noteq> [] \<and> \<not> py_isspace (hd x) \<and> \<not> py_isspace (last x)
              \<and> 44 \<notin> set x))"
proof -
  have 1: "parse_json_field lim PNone = Inr (PList [])" by (simp add: parse_json_field_def)
  have 2: "parse_json_field lim (PStr []) = Inr (PList [])"
    by (simp add: parse_json_field_def json_loads_empty)
  have 3: "parse_json_field lim (PStr (ustr ''Not specified'')) = Inr (PList [])"
    by (simp add: parse_json_field_def)
  have 4: "json_loads lim s = Inl JSONDecodeError \<longrightarrow> parse_json_field lim (PStr s) = Inr (PList [])"
    by (simp add: parse_json_field_def)
  have 5: "json_loads lim s = Inr (PList xs) \<longrightarrow> parse_json_field lim (PStr s) = Inr (PList xs)"
    using json_loads_Not_specified [of lim] by (auto simp: parse_json_field_def)
  have 6: "parse_json_field lim (PList ys) = Inr (PList ys)" by (simp add: parse_json_field_def)
  have n6: "length s \<le> lim \<and> length s \<le> max_str_digits \<longrightarrow>
        (\<exists>v. parse_json_field lim (PStr s) = Inr v)"
  proof
    assume b: "length s \<le> lim \<and> length s \<le> max_str_digits"
    show "\<exists>v. parse_json_field lim (PStr s) = Inr v"
    proof (cases "json_loads lim s")
      case (Inl e)
      with b json_loads_within_limits [of s lim e] have "e = JSONDecodeError" by simp
      with Inl show ?thesis by (simp add: parse_json_field_def)
    next
      case (Inr v)
      then show ?thesis by (simp add: parse_json_field_def)
    qed
  qed
  define its where
    "its = (if t = [] \<or> strip t = ustr ''Not specified'' then []
            else map strip (filter (\<lambda>item. strip item \<noteq> []) (py_split 44 t)))"
  have a: "parse_array_field (PStr t) = Inr (PList (map PStr its))"
    by (simp add: parse_array_field_def its_def)
  have d: "\<forall>x \<in> set its. x \<noteq> [] \<and> \<not> py_isspace (hd x) \<and> \<not> py_isspace (last x) \<and> 44 \<notin> set x"
  proof
    fix x assume "x \<in> set its"
    then obtain p where p: "p \<in> set (py_split 44 t)" "strip p \<noteq> []" "x = strip p"
      by (auto simp: its_def split: if_splits)
    from p(1) have "44 \<notin> set p" by (rule py_split_no_sep)
    with set_strip [of p] p(3) have "44 \<notin> set x" by auto
    with strip_ends [OF p(2)] p show
      "x \<noteq> [] \<and> \<not> py_isspace (hd x) \<and> \<not> py_isspace (last x) \<and> 44 \<notin> set x" by simp
  qed
  have b: "t = [] \<or> strip t = ustr ''Not specified'' \<longrightarrow> its = []"
    by (simp add: its_def)
  have c: "t \<noteq> [] \<and> strip t \<noteq> ustr ''Not specified'' \<longrightarrow>
             its = map strip (filter (\<lambda>item. strip item \<noteq> []) (py_split 44 t))"
    by (simp add: its_def)
  have 7: "\<exists>its. parse_array_field (PStr t) = Inr (PList (map PStr its))
        \<and> (t = [] \<or> strip t = ustr ''Not specified'' \<longrightarrow> its = [])
        \<and> (t \<noteq> [] \<and> strip t \<noteq> ustr ''Not specified'' \<longrightarrow>
             its = map strip (filter (\<lambda>item. strip item \<noteq> []) (py_split 44 t)))
        \<and> (\<forall>x \<in> set its. x \<noteq> [] \<and> \<not> py_isspace (hd x) \<and> \<not> py_isspace (last x)
              \<and> 44 \<notin> set x)"
    using a b c d by (intro exI [of _ its] conjI)
  show ?thesis
    by (rule conjI [OF 1 conjI [OF 2 conjI [OF 3 conjI [OF 4 conjI [OF 5 conjI [OF 6
          conjI [OF n6 7]]]]]]])
qed

text \<open>
  Claim C1: the theorem at a text that is no JSON, at a JSON array, at a nested document
  within the limits, and at a cell of the CSV file.
\<close>

theorem parse_json_field_normalizes_witness:
  "parse_json_field 1000 (PStr (ustr ''oops, no json'')) = Inr (PList [])
   \<and> parse_json_field 1000 (PStr (ustr ''[\"React\", \"Vue\"]''))
       = Inr (PList [PStr (ustr ''React''), PStr (ustr ''Vue'')])
   \<and> (\<exists>v. parse_json_field 1000 (PStr (ustr ''[[1], {\"a\": 2}]'')) = Inr v)
   \<and> parse_array_field (PStr (ustr '' React, Vue ,, ''))
       = Inr (PList [PStr (ustr ''React''), PStr (ustr ''Vue'')])"
proof -
  have h1: "json_loads 1000 (ustr ''oops, no json'') = Inl JSONDecodeError"
    by (simp add: json_eval)
  have h2: "json_loads 1000 (ustr ''[\"React\", \"Vue\"]'')
              = Inr (PList [PStr (ustr ''React''), PStr (ustr ''Vue'')])"
    by (simp add: json_eval)
  have h3: "ustr '' React, Vue ,, '' \<noteq> []
              \<and> strip (ustr '' React, Vue ,, '') \<noteq> ustr ''Not specified''"
    by (simp add: ustr_def strip_def py_isspace_def)
  have h4: "map strip (filter (\<lambda>item. strip item \<noteq> []) (py_split 44 (ustr '' React, Vue ,, '')))
              = [ustr ''React'', ustr ''Vue'']"
    by (simp add: ustr_def strip_def py_isspace_def py_split_def)
  have h5: "length (ustr ''[[1], {\"a\": 2}]'') \<le> 1000
              \<and> length (ustr ''[[1], {\"a\": 2}]'') \<le> max_str_digits"
    by (simp add: ustr_def max_str_digits_def)
  from parse_json_field_normalizes [of 1000 "ustr ''oops, no json''" "[]" "[]" "[]"] h1
  have a: "parse_json_field 1000 (PStr (ustr ''oops, no json'')) = Inr (PList [])" by blast
  from parse_json_field_normalizes
         [of 1000 "ustr ''[\"React\", \"Vue\"]''" "[PStr (ustr ''React''), PStr (ustr ''Vue'')]" "[]" "[]"] h2
  have b: "parse_json_field 1000 (PStr (ustr ''[\"React\", \"Vue\"]''))
       = Inr (PList [PStr (ustr ''React''), PStr (ustr ''Vue'')])" by blast
  from parse_json_field_normalizes [of 1000 "ustr ''[[1], {\"a\": 2}]''" "[]" "[]" "[]"] h5
  have b': "\<exists>v. parse_json_field 1000 (PStr (ustr ''[[1], {\"a\": 2}]'')) = Inr v" by blast
  from parse_json_field_normalizes [of 1000 "[]" "[]" "[]" "ustr '' React, Vue ,, ''"] h3 h4
  have c: "parse_array_field (PStr (ustr '' React, Vue ,, ''))
       = Inr (PList [PStr (ustr ''React''), PStr (ustr ''Vue'')])" by auto
  from a b b' c show ?thesis by blast
qed

text \<open>
  Claim C1 as the spec states it fails: on the comma-separated text \<^verbatim>\<open>"a, b"\<close>, which
  is no JSON, \<^verbatim>\<open>_parse_json_field\<close> returns the empty sequence and not the two elements
  a comma fallback would give.
\<close>

theorem parse_json_field_no_comma_fallback:
  "parse_json_field 1000 (PStr (ustr ''a, b'')) = Inr (PList [])
   \<and> parse_json_field 1000 (PStr (ustr ''a, b''))
       \<noteq> Inr (PList [PStr (ustr ''a''), PStr (ustr ''b'')])"
  by (simp add: parse_json_field_def json_eval)

lemmas store_eval = create_tool_def dict_get_def dict_in_def from_dict_def insert_row_def
  columns_def bind_error_def stored_def sqlite_value_def serialize_json_field_def next_id_def
  to_dict_def and_then_def parse_json_field_def id_or_None_def isoformat_or_None_def Let_def

text \<open>
  Claim C2 (every array field of \<^verbatim>\<open>to_dict\<close> is a sequence, never null) fails on the
  code: a create payload may give an array field as a text, which is stored as it is, and
  the text \<^verbatim>\<open>null\<close> decodes to \<^verbatim>\<open>None\<close>. The record created from such a payload
  serializes \<^verbatim>\<open>frameworks\<close> as null, while the omitted \<^verbatim>\<open>features\<close> is the empty
  sequence.
\<close>

theorem create_tool_array_field_null:
  "(case create_tool 1000 (DateTime 2025 1 1 0 0 0) []
           [(ustr ''name'', PStr (ustr ''X'')), (ustr ''category'', PStr (ustr ''Y'')),
            (ustr ''frameworks'', PStr (ustr ''null''))] of
      (Inr (Response code body), store) \<Rightarrow>
         code = 201 \<and> map_of body (ustr ''frameworks'') = Some PNone
         \<and> map_of body (ustr ''features'') = Some (PList [])
    | _ \<Rightarrow> False)"
  by (simp add: store_eval json_eval)

text \<open>
  Claim C2: so the response to that request holds an array field that is no sequence.
\<close>

theorem create_tool_array_field_null_witness:
  "\<exists>body store.
     create_tool 1000 (DateTime 2025 1 1 0 0 0) []
       [(ustr ''name'', PStr (ustr ''X'')), (ustr ''category'', PStr (ustr ''Y'')),
        (ustr ''frameworks'', PStr (ustr ''null''))]
       = (Inr (Response 201 body), store)
     \<and> (\<forall>xs. map_of body (ustr ''frameworks'') \<noteq> Some (PList xs))"
  using create_tool_array_field_null
  by (auto split: prod.splits sum.splits response.splits)

text \<open>
  Claim C9 (normalizing the output again gives the same output) fails on the code where
  the output is no sequence: the stored text \<^verbatim>\<open>5\<close> decodes to the integer 5, and
  \<^verbatim>\<open>_parse_json_field\<close> of the integer 5 is the empty sequence.
\<close>

theorem parse_json_field_not_idempotent:
  "parse_json_field lim (PStr (ustr ''5'')) = Inr (PInt 5)
   \<and> and_then (parse_json_field lim (PStr (ustr ''5''))) (parse_json_field lim) = Inr (PList [])"
  by (simp add: parse_json_field_def and_then_def json_eval)

section \<open>Properties of the endpoints\<close>

subsection \<open>Creating from a payload\<close>


lemmas int_eval = py_int_def to_ascii_def ascii_space_def max_str_digits_def ustr_def
  is_digit_def digits_value_def



subsection \<open>Listing\<close>

text \<open>
  A list request answers when the offset of the page can be bound to the statement and
  every record of the page serializes; the summary view serializes every record.
\<close>

lemma map_result_Inr:
  "list_all (\<lambda>x. case f x of Inl e \<Rightarrow> False | Inr y \<Rightarrow> True) xs
     \<Longrightarrow> \<exists>ys. map_result f xs = Inr ys \<and> length ys = length xs"
proof (induction xs)
  case Nil
  then show ?case by simp
next
  case (Cons x xs)
  then obtain y ys where "f x = Inr y" "map_result f xs = Inr ys" "length ys = length xs"
    by (auto split: sum.splits)
  then show ?case by (simp add: and_then_def)
qed

lemma list_all_sublist:
  "list_all P xs \<Longrightarrow> list_all P (take n (drop m (filter Q xs)))"
  by (auto simp: list_all_iff dest!: in_set_takeD in_set_dropD)

lemma list_query_filter: "\<exists>Q. list_query store args = filter Q store"
proof -
  have "\<And>P xs. \<exists>Q. xs = filter Q xs" by (rule exI [of _ "\<lambda>x. True"]) simp
  moreover have "\<And>P P' xs. \<exists>Q. filter P (filter P' xs) = filter Q xs"
    by (rule exI [of _ "\<lambda>x. P' x \<and> P x" for P P']) simp
  ultimately show ?thesis
    by (auto simp: list_query_def Let_def split: option.splits intro: exI [of _ "\<lambda>x. True"])
qed

lemma serialize_page:
  assumes "summary \<or> list_all (serializes lim) store"
  shows "\<exists>td. (if summary
                then Inr (map to_summary_dict (take n (drop m (list_query store args))))
                else map_result (to_dict lim) (take n (drop m (list_query store args))))
               = Inr td
             \<and> length td = length (take n (drop m (list_query store args)))"
proof (cases summary)
  case True
  then show ?thesis by simp
next
  case False
  with assms have a: "list_all (serializes lim) store" by simp
  obtain Q where q: "list_query store args = filter Q store"
    using list_query_filter by blast
  from a have "list_all (serializes lim) (take n (drop m (filter Q store)))"
    by (rule list_all_sublist)
  then have "list_all (\<lambda>x. case to_dict lim x of Inl e \<Rightarrow> False | Inr y \<Rightarrow> True)
               (take n (drop m (list_query store args)))"
    unfolding q serializes_def .
  from map_result_Inr [OF this] False show ?thesis by simp
qed

lemma paginate_Inr:
  assumes "int64 (page_offset p n)"
  shows "paginate q p (min n 100)
     = Inr \<lparr> items = take (nat (page_size n)) (drop (nat (page_offset p n)) q),
             total = int (length q),
             pages = (if q = [] then 0 else (int (length q) + page_size n - 1) div page_size n),
             has_next = ((if p < 1 then 1 else p)
                < (if q = [] then 0 else (int (length q) + page_size n - 1) div page_size n)),
             has_prev = (1 < (if p < 1 then 1 else p)) \<rparr>"
proof -
  have "int64 (page_size n)" by (auto simp: page_size_def int64_def min_def)
  with assms show ?thesis
    by (simp add: paginate_def Let_def page_size_def page_offset_def bind_error_def)
qed

lemma paginate_Inl:
  assumes "\<not> int64 (page_offset p n)"
  shows "paginate q p (min n 100) = Inl OverflowError"
proof -
  have "int64 (page_size n)" by (auto simp: page_size_def int64_def min_def)
  with assms show ?thesis
    by (simp add: paginate_def Let_def page_size_def page_offset_def bind_error_def)
qed


lemma get_tools_OverflowError:
  assumes "page_arg args = Some p" and "per_page_arg args = Some n"
    and "\<not> int64 (page_offset p n)"
  shows "get_tools lim store args = Inl OverflowError"
  using assms(1,2) paginate_Inl [OF assms(3)]
  by (simp add: get_tools_def page_arg_def per_page_arg_def Let_def and_then_def)

lemma get_tools_body:
  assumes "page_arg args = Some p" and "per_page_arg args = Some n"
    and "int64 (page_offset p n)"
    and "summary_arg args \<or> list_all (serializes lim) store"
  shows "\<exists>td. get_tools lim store args =
     Inr (Response 200
       [(ustr ''tools'', PList (map PDict td)),
        (ustr ''pagination'',
         PDict
           [(ustr ''page'', PInt p),
            (ustr ''per_page'', PInt (min n 100)),
            (ustr ''total'', PInt (int (length (list_query store args)))),
            (ustr ''pages'', PInt (if list_query store args = [] then 0
               else (int (length (list_query store args)) + page_size n - 1) div page_size n)),
            (ustr ''has_next'', PBool ((if p < 1 then 1 else p)
               < (if list_query store args = [] then 0
                  else (int (length (list_query store args)) + page_size n - 1) div page_size n))),
            (ustr ''has_prev'', PBool (1 < (if p < 1 then 1 else p)))])])
     \<and> length td
         = length (take (nat (page_size n)) (drop (nat (page_offset p n)) (list_query store args)))
     \<and> (summary_arg args \<longrightarrow> td = map to_summary_dict
           (take (nat (page_size n)) (drop (nat (page_offset p n)) (list_query store args))))
     \<and> (\<not> summary_arg args \<longrightarrow> map_result (to_dict lim)
           (take (nat (page_size n)) (drop (nat (page_offset p n)) (list_query store args)))
           = Inr td)"
proof -
  let ?sel = "take (nat (page_size n)) (drop (nat (page_offset p n)) (list_query store args))"
  from serialize_page [OF assms(4), of "nat (page_size n)" "nat (page_offset p n)" args]
  obtain td where td: "(if summary_arg args then Inr (map to_summary_dict ?sel)
                else map_result (to_dict lim) ?sel) = Inr td"
    and len: "length td = length ?sel" by blast
  have s: "(ascii_lower (case args (ustr ''summary'') of None \<Rightarrow> ustr ''false'' | Some s \<Rightarrow> s)
           = ustr ''true'') = summary_arg args" by (simp add: summary_arg_def)
  define pag where "pag = \<lparr> items = ?sel,
             total = int (length (list_query store args)),
             pages = (if list_query store args = [] then 0
               else (int (length (list_query store args)) + page_size n - 1) div page_size n),
             has_next = ((if p < 1 then 1 else p)
                < (if list_query store args = [] then 0
                   else (int (length (list_query store args)) + page_size n - 1) div page_size n)),
             has_prev = (1 < (if p < 1 then 1 else p)) \<rparr>"
  have pg: "paginate (list_query store args) p (min n 100) = Inr pag"
    unfolding pag_def by (rule paginate_Inr [OF assms(3)])
  have it: "items pag = ?sel" by (simp add: pag_def)
  from td have td': "(if summary_arg args then Inr (map to_summary_dict (items pag))
                else map_result (to_dict lim) (items pag)) = Inr td"
    unfolding it .
  have "get_tools lim store args =
     Inr (Response 200
       [(ustr ''tools'', PList (map PDict td)),
        (ustr ''pagination'',
         PDict
           [(ustr ''page'', PInt p),
            (ustr ''per_page'', PInt (min n 100)),
            (ustr ''total'', PInt (total pag)),
            (ustr ''pages'', PInt (pages pag)),
            (ustr ''has_next'', PBool (has_next pag)),
            (ustr ''has_prev'', PBool (has_prev pag))])])"
    using assms(1,2)
    by (simp add: get_tools_def Let_def s pg td' page_arg_def per_page_arg_def and_then_def
        split del: if_split)
  then have "get_tools lim store args =
     Inr (Response 200
       [(ustr ''tools'', PList (map PDict td)),
        (ustr ''pagination'',
         PDict
           [(ustr ''page'', PInt p),
            (ustr ''per_page'', PInt (min n 100)),
            (ustr ''total'', PInt (int (length (list_query store args)))),
            (ustr ''pages'', PInt (if list_query store args = [] then 0
               else (int (length (list_query store args)) + page_size n - 1) div page_size n)),
            (ustr ''has_next'', PBool ((if p < 1 then 1 else p)
               < (if list_query store args = [] then 0
                  else (int (length (list_query store args)) + page_size n - 1) div page_size n))),
            (ustr ''has_prev'', PBool (1 < (if p < 1 then 1 else p)))])])"
    by (simp add: pag_def split del: if_split)
  moreover from td have "summary_arg args \<longrightarrow> td = map to_summary_dict ?sel" by auto
  moreover from td have "\<not> summary_arg args \<longrightarrow> map_result (to_dict lim) ?sel = Inr td"
    by auto
  ultimately show ?thesis using len by blast
qed

text \<open>
  Within these bounds the pages are as the spec has them: for a page \<open>p\<close> and a page
  size \<open>n\<close> of at least 1, \<^verbatim>\<open>total\<close> is the number \<open>N\<close> of matching records,
  \<^verbatim>\<open>pages\<close> is the least \<open>k\<close> with \<open>N \<le> k * size\<close>, a page up to \<open>k\<close> holds
  \<open>min size (N - (p - 1) * size)\<close> records and a page beyond \<open>k\<close> holds none.
\<close>

lemma pages_ceil:
  fixes N pp :: int
  assumes "0 \<le> N" and "1 \<le> pp"
  defines "k \<equiv> (if N = 0 then 0 else (N + pp - 1) div pp)"
  shows "N \<le> k * pp \<and> k * pp < N + pp"
proof (cases "N = 0")
  case True
  with assms show ?thesis by simp
next
  case False
  let ?x = "N + pp - 1"
  have pos: "0 < pp" using assms by simp
  have e: "?x div pp * pp + ?x mod pp = ?x" by (rule div_mult_mod_eq)
  have m1: "0 \<le> ?x mod pp" using pos by (rule pos_mod_sign)
  have m2: "?x mod pp < pp" using pos by (rule pos_mod_bound)
  from False have "k * pp = ?x div pp * pp" by (simp add: k_def)
  with e m1 m2 show ?thesis by linarith
qed

lemma length_page_aux:
  fixes m pp :: int
  assumes "0 \<le> m" and "1 \<le> pp"
  shows "int (length (take (nat pp) (drop (nat m) q))) = max 0 (min pp (int (length q) - m))"
  using assms by (simp add: min_def max_def) linarith

lemma get_tools_page:
  assumes "page_arg args = Some p" and "1 \<le> p"
    and "per_page_arg args = Some n" and "1 \<le> n"
    and "int64 ((p - 1) * min n 100)"
    and "summary_arg args \<or> list_all (serializes lim) store"
  shows "\<exists>ts k.
     tools_of (get_tools lim store args) = Some ts
     \<and> pagination_of (get_tools lim store args) (ustr ''page'') = Some (PInt p)
     \<and> pagination_of (get_tools lim store args) (ustr ''total'')
           = Some (PInt (int (length (list_query store args))))
     \<and> pagination_of (get_tools lim store args) (ustr ''pages'') = Some (PInt k)
     \<and> int (length (list_query store args)) \<le> k * min n 100
     \<and> k * min n 100 < int (length (list_query store args)) + min n 100
     \<and> (p \<le> k \<longrightarrow>
           int (length ts) = min (min n 100) (int (length (list_query store args)) - (p - 1) * min n 100))
     \<and> (k < p \<longrightarrow> ts = [])"
proof -
  let ?pp = "min n 100"
  let ?q = "list_query store args"
  let ?N = "int (length ?q)"
  define k where "k = (if ?N = 0 then 0 else (?N + ?pp - 1) div ?pp)"
  have pp: "1 \<le> ?pp" using assms(4) by simp
  then have "\<not> ?pp < 1" by simp
  then have ps: "page_size n = ?pp" unfolding page_size_def by (simp only: if_False)
  have po: "page_offset p n = (p - 1) * ?pp" using assms(2) by (simp add: page_offset_def ps)
  have o: "int64 (page_offset p n)" using assms(5) by (simp add: po)
  from get_tools_body [OF assms(1,3) o assms(6)] obtain td where
    r: "get_tools lim store args =
     Inr (Response 200
       [(ustr ''tools'', PList (map PDict td)),
        (ustr ''pagination'',
         PDict
           [(ustr ''page'', PInt p),
            (ustr ''per_page'', PInt (min n 100)),
            (ustr ''total'', PInt (int (length (list_query store args)))),
            (ustr ''pages'', PInt (if list_query store args = [] then 0
               else (int (length (list_query store args)) + page_size n - 1) div page_size n)),
            (ustr ''has_next'', PBool ((if p < 1 then 1 else p)
               < (if list_query store args = [] then 0
                  else (int (length (list_query store args)) + page_size n - 1) div page_size n))),
            (ustr ''has_prev'', PBool (1 < (if p < 1 then 1 else p)))])])"
    and len0: "length td = length (take (nat (page_size n))
                     (drop (nat (page_offset p n)) (list_query store args)))"
    by blast
  define ts where "ts = map PDict td"
  have 1: "tools_of (get_tools lim store args) = Some ts"
    unfolding r ts_def by (simp add: tools_of_def)
  have 2: "pagination_of (get_tools lim store args) (ustr ''page'') = Some (PInt p)"
    unfolding r by (simp add: pagination_of_def ustr_def)
  have 3: "pagination_of (get_tools lim store args) (ustr ''total'') = Some (PInt ?N)"
    unfolding r by (simp add: pagination_of_def ustr_def)
  have 4: "pagination_of (get_tools lim store args) (ustr ''pages'') = Some (PInt k)"
    unfolding r by (simp add: pagination_of_def ustr_def k_def ps)
  have c: "?N \<le> k * ?pp \<and> k * ?pp < ?N + ?pp"
    unfolding k_def by (rule pages_ceil) (use pp in simp_all)
  have "0 \<le> (p - 1) * ?pp" using assms(2) pp by simp
  from length_page_aux [OF this pp, of ?q] len0
  have len: "int (length ts) = max 0 (min ?pp (?N - (p - 1) * ?pp))"
    by (simp add: ts_def ps po)
  have 7: "p \<le> k \<longrightarrow> int (length ts) = min ?pp (?N - (p - 1) * ?pp)"
  proof
    assume "p \<le> k"
    then have "(p - 1) * ?pp \<le> (k - 1) * ?pp" using pp by (intro mult_right_mono) simp_all
    also have "\<dots> = k * ?pp - ?pp" by (simp add: algebra_simps)
    also have "\<dots> < ?N" using c by linarith
    finally have "0 < ?N - (p - 1) * ?pp" by simp
    with len pp show "int (length ts) = min ?pp (?N - (p - 1) * ?pp)" by linarith
  qed
  have 8: "k < p \<longrightarrow> ts = []"
  proof
    assume "k < p"
    then have "k * ?pp \<le> (p - 1) * ?pp" using pp by (intro mult_right_mono) simp_all
    with c have "?N - (p - 1) * ?pp \<le> 0" by linarith
    with len pp have "int (length ts) = 0" by linarith
    then show "ts = []" by simp
  qed
  from 1 2 3 4 c 7 8 show ?thesis by blast
qed

text \<open>\<^verbatim>\<open>int\<close> on some texts, among them digits and whitespace that are not ASCII.\<close>

lemma py_int_examples:
  "py_int (ustr ''0'') = Some 0" "py_int (ustr ''-5'') = Some (- 5)"
  "py_int (ustr ''250'') = Some 250" "py_int (ustr ''5'') = Some 5"
  "py_int (ustr ''1'') = Some 1" "py_int (ustr ''4'') = Some 4"
  "py_int (ustr ''five'') = None"
  "py_int (ustr ''99999999999999999999'') = Some 99999999999999999999"
  by (simp_all add: int_eval)

lemma py_int_unicode:
  "py_int [1637] = Some 5" "py_int [28, 55] = None" "py_int [160, 55, 12288] = Some 7"
  by (simp_all add: int_eval py_isspace_def to_decimal_def decimal_zeros_def)





text \<open>
  Claim C6 (a page beyond the last one yields an empty sequence, not an error) fails on
  the code for a page so far beyond the last one that its offset does not fit 64 bits:
  the driver cannot bind the offset, and the request \<^verbatim>\<open>page=99999999999999999999\<close> ends
  in the unhandled \<^verbatim>\<open>OverflowError\<close> on every store. Lemma \<open>get_tools_page\<close> is the
  claim for the pages whose offset fits.
\<close>

theorem get_tools_page_overflow:
  "get_tools lim store [ustr ''page'' \<mapsto> ustr ''99999999999999999999''] = Inl OverflowError"
proof -
  let ?args = "[ustr ''page'' \<mapsto> ustr ''99999999999999999999'']"
  have p: "page_arg ?args = Some 99999999999999999999"
    by (simp add: page_arg_def py_int_examples)
  have n: "per_page_arg ?args = Some 20"
    by (simp add: per_page_arg_def) (simp add: ustr_def)
  have o: "\<not> int64 (page_offset 99999999999999999999 20)"
    by (simp add: page_offset_def page_size_def int64_def)
  from p n o show ?thesis by (rule get_tools_OverflowError)
qed

subsection \<open>Creating and updating\<close>

lemma first_bind_error_None:
  "list_all bindable vs \<Longrightarrow> first_bind_error vs = None"
  by (induction vs) (simp_all add: bindable_def)

lemma create_tool_valid:
  assumes "dict_get data (ustr ''name'') = PStr n" and "n \<noteq> []"
    and "truthy (dict_get data (ustr ''category''))"
  shows "create_tool lim now store data =
     (case find (\<lambda>t. name t = PStr n) store of
        Some existing_tool \<Rightarrow>
          (Inr (Response 409
             [(ustr ''error'', PStr (ustr ''Tool with this name already exists''))]), store)
      | None \<Rightarrow>
          (case insert_row now store (from_dict data) of
             Inl e \<Rightarrow> (Inl e, store)
           | Inr (tool, store1) \<Rightarrow>
               (and_then (to_dict lim tool) (\<lambda>body. Inr (Response 201 body)), store1)))"
  using assms by (simp add: create_tool_def bind_error_def sqlite_value_def)

lemma stored_sel:
  "name (stored tool) = sqlite_value TEXT (name tool)"
  "category (stored tool) = sqlite_value TEXT (category tool)"
  "description (stored tool) = sqlite_value TEXT (description tool)"
  "url (stored tool) = sqlite_value TEXT (url tool)"
  "frameworks (stored tool) = sqlite_value TEXT (frameworks tool)"
  "supported_languages (stored tool) = sqlite_value TEXT (supported_languages tool)"
  "features (stored tool) = sqlite_value TEXT (features tool)"
  "native_integrations (stored tool) = sqlite_value TEXT (native_integrations tool)"
  "verified_integrations (stored tool) = sqlite_value TEXT (verified_integrations tool)"
  "notable_strengths (stored tool) = sqlite_value TEXT (notable_strengths tool)"
  "known_limitations (stored tool) = sqlite_value TEXT (known_limitations tool)"
  "maturity_score (stored tool) = sqlite_value INTEGER (maturity_score tool)"
  "popularity_score (stored tool) = sqlite_value INTEGER (popularity_score tool)"
  "pricing (stored tool) = sqlite_value TEXT (pricing tool)"
  "id' (stored tool) = id' tool"
  "created_at (stored tool) = created_at tool"
  "updated_at (stored tool) = updated_at tool"
  by (simp_all add: stored_def)

lemma insert_row_name:
  assumes "insert_row now store tool = Inr (row, store1)"
  shows "store1 = store @ [row] \<and> name row = sqlite_value TEXT (name tool)"
  using assms
  by (auto simp: insert_row_def Let_def stored_sel split: option.splits if_splits)

text \<open>
  Claim C7. For a payload with the name \<open>n\<close>, a text that is not empty, and a
  category: when a record of the store has exactly the name \<open>n\<close>, \<^verbatim>\<open>create_tool\<close>
  answers 409 and the store is as before; when no record has exactly that name (one
  that differs in case only is another name), the answer is not 409; and whenever a
  first call was answered, by 201 or by 409, a second call with the same payload is
  answered 409 and leaves the store, and so the number of records, as the first call
  left it.
\<close>

theorem create_tool_conflict:
  "dict_get data (ustr ''name'') = PStr n \<and> n \<noteq> [] \<and> truthy (dict_get data (ustr ''category''))
   \<longrightarrow>
     ((\<exists>t \<in> set store. name t = PStr n) \<longrightarrow>
        create_tool lim now store data
          = (Inr (Response 409
               [(ustr ''error'', PStr (ustr ''Tool with this name already exists''))]), store))
     \<and> ((\<forall>t \<in> set store. name t \<noteq> PStr n) \<longrightarrow>
          (\<forall>body store1. create_tool lim now store data \<noteq> (Inr (Response 409 body), store1)))
     \<and> (\<forall>r1 store1. create_tool lim now store data = (Inr r1, store1) \<longrightarrow>
          create_tool lim2 now2 store1 data
            = (Inr (Response 409
                 [(ustr ''error'', PStr (ustr ''Tool with this name already exists''))]), store1))"
proof
  assume "dict_get data (ustr ''name'') = PStr n \<and> n \<noteq> []
            \<and> truthy (dict_get data (ustr ''category''))"
  then have v: "dict_get data (ustr ''name'') = PStr n" "n \<noteq> []"
    "truthy (dict_get data (ustr ''category''))" by simp_all
  note c = create_tool_valid [OF v]
  have dup: "\<And>l nw (st :: table). \<exists>t \<in> set st. name t = PStr n \<Longrightarrow>
        create_tool l nw st data
          = (Inr (Response 409
               [(ustr ''error'', PStr (ustr ''Tool with this name already exists''))]), st)"
  proof -
    fix l nw and st :: table assume "\<exists>t \<in> set st. name t = PStr n"
    then have "find (\<lambda>t. name t = PStr n) st \<noteq> None" by (auto simp: find_None_iff)
    then show "create_tool l nw st data
          = (Inr (Response 409
               [(ustr ''error'', PStr (ustr ''Tool with this name already exists''))]), st)"
      by (auto simp: c)
  qed
  have 1: "(\<exists>t \<in> set store. name t = PStr n) \<longrightarrow>
        create_tool lim now store data
          = (Inr (Response 409
               [(ustr ''error'', PStr (ustr ''Tool with this name already exists''))]), store)"
    using dup by blast
  have 2: "(\<forall>t \<in> set store. name t \<noteq> PStr n) \<longrightarrow>
          (\<forall>body store1. create_tool lim now store data \<noteq> (Inr (Response 409 body), store1))"
  proof
    assume "\<forall>t \<in> set store. name t \<noteq> PStr n"
    then have "find (\<lambda>t. name t = PStr n) store = None" by (simp add: find_None_iff)
    then show "\<forall>body store1. create_tool lim now store data \<noteq> (Inr (Response 409 body), store1)"
      by (auto simp: c and_then_def split: sum.splits)
  qed
  have 3: "\<forall>r1 store1. create_tool lim now store data = (Inr r1, store1) \<longrightarrow>
          create_tool lim2 now2 store1 data
            = (Inr (Response 409
                 [(ustr ''error'', PStr (ustr ''Tool with this name already exists''))]), store1)"
  proof (intro allI impI)
    fix r1 store1 assume a: "create_tool lim now store data = (Inr r1, store1)"
    have "\<exists>t \<in> set store1. name t = PStr n"
    proof (cases "find (\<lambda>t. name t = PStr n) store")
      case (Some t)
      then have "t \<in> set store" "name t = PStr n" by (auto simp: find_Some_iff)
      moreover from a Some have "store1 = store" by (simp add: c)
      ultimately show ?thesis by blast
    next
      case None
      with a obtain row where "insert_row now store (from_dict data) = Inr (row, store1)"
        by (auto simp: c split: sum.splits)
      from insert_row_name [OF this] v(1) show ?thesis
        by (simp add: from_dict_def sqlite_value_def)
    qed
    then show "create_tool lim2 now2 store1 data
            = (Inr (Response 409
                 [(ustr ''error'', PStr (ustr ''Tool with this name already exists''))]), store1)"
      by (rule dup)
  qed
  from 1 2 3 show "((\<exists>t \<in> set store. name t = PStr n) \<longrightarrow>
        create_tool lim now store data
          = (Inr (Response 409
               [(ustr ''error'', PStr (ustr ''Tool with this name already exists''))]), store))
     \<and> ((\<forall>t \<in> set store. name t \<noteq> PStr n) \<longrightarrow>
          (\<forall>body store1. create_tool lim now store data \<noteq> (Inr (Response 409 body), store1)))
     \<and> (\<forall>r1 store1. create_tool lim now store data = (Inr r1, store1) \<longrightarrow>
          create_tool lim2 now2 store1 data
            = (Inr (Response 409
                 [(ustr ''error'', PStr (ustr ''Tool with this name already exists''))]), store1))"
    by (intro conjI)
qed

lemma update_fields_sel:
  "name (update_fields tool data) = assign data (ustr ''name'') (name tool)"
  "category (update_fields tool data) = assign data (ustr ''category'') (category tool)"
  "description (update_fields tool data) = assign data (ustr ''description'') (description tool)"
  "url (update_fields tool data) = assign data (ustr ''url'') (url tool)"
  "frameworks (update_fields tool data) = assign_json data (ustr ''frameworks'') (frameworks tool)"
  "supported_languages (update_fields tool data)
     = assign_json data (ustr ''supported_languages'') (supported_languages tool)"
  "features (update_fields tool data) = assign_json data (ustr ''features'') (features tool)"
  "native_integrations (update_fields tool data)
     = assign_json data (ustr ''native_integrations'') (native_integrations tool)"
  "verified_integrations (update_fields tool data)
     = assign_json data (ustr ''verified_integrations'') (verified_integrations tool)"
  "notable_strengths (update_fields tool data)
     = assign_json data (ustr ''notable_strengths'') (notable_strengths tool)"
  "known_limitations (update_fields tool data)
     = assign_json data (ustr ''known_limitations'') (known_limitations tool)"
  "maturity_score (update_fields tool data)
     = assign data (ustr ''maturity_score'') (maturity_score tool)"
  "popularity_score (update_fields tool data)
     = assign data (ustr ''popularity_score'') (popularity_score tool)"
  "pricing (update_fields tool data) = assign data (ustr ''pricing'') (pricing tool)"
  by (simp_all add: update_fields_def)

lemma update_fields_scalar:
  "(k, col) \<in> set scalar_fields \<Longrightarrow>
     col (update_fields tool data) = (if dict_in k data then dict_get data k else col tool)"
  by (auto simp: scalar_fields_def update_fields_sel assign_def)

lemma update_fields_array:
  "(k, col) \<in> set array_fields \<Longrightarrow>
     col (update_fields tool data)
       = (if dict_in k data then serialize_json_field (dict_get data k) else col tool)"
  by (auto simp: array_fields_def update_fields_sel assign_json_def)

lemma update_fields_kept:
  "id' (update_fields tool data) = id' tool"
  "created_at (update_fields tool data) = created_at tool"
  "updated_at (update_fields tool data) = updated_at tool"
  by (simp_all add: update_fields_def)

lemma update_fields_same:
  assumes "\<forall>col \<in> set columns. col (update_fields tool data) = col tool"
  shows "update_fields tool data = tool"
  using assms by (simp add: columns_def update_fields_def)

lemma update_row_unchanged:
  assumes "\<forall>col \<in> set columns. col new = col old"
  shows "update_row now store old new = Inr (new, store)"
proof -
  from assms have "filter (\<lambda>col. col new \<noteq> col old) columns = []"
    by (simp add: filter_empty_conv)
  then show ?thesis by (simp add: update_row_def)
qed

lemma update_row_changed:
  assumes "\<exists>col \<in> set columns. col new \<noteq> col old"
    and "update_row now store old new = Inr (row, store1)"
  shows "row = (written old new)\<lparr> updated_at := Some now \<rparr>
     \<and> store1 = map (\<lambda>t. if id' t = id' old then row else t) store"
proof -
  from assms(1) have "filter (\<lambda>col. col new \<noteq> col old) columns \<noteq> []"
    by (simp add: filter_empty_conv)
  with assms(2) show ?thesis
    by (auto simp: update_row_def Let_def split: if_splits option.splits)
qed

lemma find_id:
  "find (\<lambda>t. id' t = Some tool_id) store = Some tool \<Longrightarrow> id' tool = Some tool_id"
  by (auto simp: find_Some_iff)

lemma update_tool_responses:
  "update_tool lim now store tool_id data = (Inr r, store1) \<Longrightarrow>
     r = NotFound \<or> (\<exists>body. r = Response 200 body)"
  by (auto simp: update_tool_def and_then_def split: option.splits sum.splits)

lemma written_name:
  "name (written old new) = (if name new = name old then name old else sqlite_value TEXT (name new))"
  "category (written old new)
     = (if category new = category old then category old else sqlite_value TEXT (category new))"
  by (simp_all add: written_def stored_sel)

lemma update_row_duplicate:
  assumes "name new = PStr n" and "name old \<noteq> PStr n"
    and "\<exists>t \<in> set store. id' t \<noteq> id' old \<and> name t = PStr n"
    and "list_all (\<lambda>col. bindable (col new)) columns"
  shows "update_row now store old new = Inl IntegrityError"
proof -
  have "name \<in> set columns" by (simp add: columns_def)
  moreover from assms(1,2) have "name new \<noteq> name old" by auto
  ultimately have "\<exists>col \<in> set columns. col new \<noteq> col old" by blast
  then have ne: "filter (\<lambda>col. col new \<noteq> col old) columns \<noteq> []"
    by (simp add: filter_empty_conv)
  have "list_all bindable (map (\<lambda>col. col new) (filter (\<lambda>col. col new \<noteq> col old) columns))"
    using assms(4) by (auto simp: list_all_iff)
  then have b: "first_bind_error
      (map (\<lambda>col. col new) (filter (\<lambda>col. col new \<noteq> col old) columns)) = None"
    by (rule first_bind_error_None)
  have nm: "name ((written old new)\<lparr> updated_at := Some now \<rparr>) = PStr n"
    using assms(1,2) by (simp add: written_name sqlite_value_def)
  have d: "list_ex (\<lambda>t. id' t \<noteq> id' old \<and> name t = PStr n) store"
    using assms(3) by (simp add: list_ex_iff)
  show ?thesis
    unfolding update_row_def Let_def using ne b nm d assms(2)
    by (simp del: written_def)
qed

text \<open>
  Claim C10. \<^verbatim>\<open>update_tool\<close> never answers 409. When the payload renames the record to
  the name \<open>n\<close> of another record of the store (and the id and every value it assigns
  can be bound to the statement), the \<^verbatim>\<open>UNIQUE\<close> constraint of the store fails the
  commit: the request ends in the unhandled \<^verbatim>\<open>IntegrityError\<close> and the store is as
  before. \<^verbatim>\<open>create_tool\<close> with that name is answered 409.
\<close>

theorem update_tool_no_conflict:
  "(\<forall>body store1. update_tool lim now store tool_id data \<noteq> (Inr (Response 409 body), store1))
   \<and> (find (\<lambda>t. id' t = Some tool_id) store = Some tool
       \<and> dict_in (ustr ''name'') data \<and> dict_get data (ustr ''name'') = PStr n
       \<and> name tool \<noteq> PStr n
       \<and> (\<exists>t \<in> set store. id' t \<noteq> Some tool_id \<and> name t = PStr n)
       \<and> bindable (PInt tool_id)
       \<and> list_all (\<lambda>col. bindable (col (update_fields tool data))) columns
      \<longrightarrow> update_tool lim now store tool_id data = (Inl IntegrityError, store))
   \<and> (dict_get payload (ustr ''name'') = PStr n \<and> n \<noteq> []
       \<and> truthy (dict_get payload (ustr ''category''))
       \<and> (\<exists>t \<in> set store. name t = PStr n)
      \<longrightarrow> (\<exists>body. create_tool lim now store payload = (Inr (Response 409 body), store)))"
proof (intro conjI allI impI)
  fix body store1
  show "update_tool lim now store tool_id data \<noteq> (Inr (Response 409 body), store1)"
    using update_tool_responses [of lim now store tool_id data "Response 409 body" store1] by auto
next
  assume a: "find (\<lambda>t. id' t = Some tool_id) store = Some tool
       \<and> dict_in (ustr ''name'') data \<and> dict_get data (ustr ''name'') = PStr n
       \<and> name tool \<noteq> PStr n
       \<and> (\<exists>t \<in> set store. id' t \<noteq> Some tool_id \<and> name t = PStr n)
       \<and> bindable (PInt tool_id)
       \<and> list_all (\<lambda>col. bindable (col (update_fields tool data))) columns"
  let ?new = "update_fields tool data"
  from a have f: "find (\<lambda>t. id' t = Some tool_id) store = Some tool" by simp
  have idt: "id' tool = Some tool_id" using f by (rule find_id)
  from a have nm: "name ?new = PStr n" by (simp add: update_fields_sel assign_def)
  from a have 1: "name tool \<noteq> PStr n" by simp
  from a idt have 2: "\<exists>t \<in> set store. id' t \<noteq> id' tool \<and> name t = PStr n" by auto
  from a have 3: "list_all (\<lambda>col. bindable (col ?new)) columns" by simp
  from a have 4: "bind_error (PInt tool_id) = None" by (simp add: bindable_def)
  from update_row_duplicate [OF nm 1 2 3, of now] f 4
  show "update_tool lim now store tool_id data = (Inl IntegrityError, store)"
    by (simp add: update_tool_def)
next
  assume a: "dict_get payload (ustr ''name'') = PStr n \<and> n \<noteq> []
       \<and> truthy (dict_get payload (ustr ''category''))
       \<and> (\<exists>t \<in> set store. name t = PStr n)"
  then have v: "dict_get payload (ustr ''name'') = PStr n" "n \<noteq> []"
    "truthy (dict_get payload (ustr ''category''))" by simp_all
  from a have "find (\<lambda>t. name t = PStr n) store \<noteq> None" by (auto simp: find_None_iff)
  then show "\<exists>body. create_tool lim now store payload = (Inr (Response 409 body), store)"
    by (auto simp: create_tool_valid [OF v])
qed

text \<open>A payload of values of the columns' types is stored as it is given.\<close>

lemma keep_value:
  "text_value v \<Longrightarrow> sqlite_value TEXT v = v"
  "score_value v \<Longrightarrow> sqlite_value INTEGER v = v"
  "array_value v \<Longrightarrow> sqlite_value TEXT (serialize_json_field v) = serialize_json_field v"
  by (auto simp: text_value_def score_value_def array_value_def sqlite_value_def
      serialize_json_field_def split: pyval.splits)

lemma bindable_value:
  "text_value v \<Longrightarrow> bindable v"
  "score_value v \<Longrightarrow> bindable v"
  "array_value v \<Longrightarrow> bindable (serialize_json_field v)"
  by (auto simp: text_value_def score_value_def array_value_def bindable_def bind_error_def
      serialize_json_field_def split: pyval.splits)

lemma typed_payload_values:
  assumes "typed_payload data"
  shows "text_value (dict_get data (ustr ''name''))"
    "text_value (dict_get data (ustr ''category''))"
    "text_value (dict_get data (ustr ''description''))"
    "text_value (dict_get data (ustr ''url''))"
    "text_value (dict_get data (ustr ''pricing''))"
    "score_value (dict_get data (ustr ''maturity_score''))"
    "score_value (dict_get data (ustr ''popularity_score''))"
    "array_value (dict_get data (ustr ''frameworks''))"
    "array_value (dict_get data (ustr ''supported_languages''))"
    "array_value (dict_get data (ustr ''features''))"
    "array_value (dict_get data (ustr ''native_integrations''))"
    "array_value (dict_get data (ustr ''verified_integrations''))"
    "array_value (dict_get data (ustr ''notable_strengths''))"
    "array_value (dict_get data (ustr ''known_limitations''))"
  using assms by (simp_all add: typed_payload_def text_fields_def array_fields_def)

lemma typed_written:
  assumes "typed_payload data"
  shows "written tool (update_fields tool data) = update_fields tool data"
proof -
  let ?new = "update_fields tool data"
  note v = typed_payload_values [OF assms]
  note k = keep_value(1) [OF v(1)] keep_value(1) [OF v(2)] keep_value(1) [OF v(3)]
    keep_value(1) [OF v(4)] keep_value(1) [OF v(5)] keep_value(2) [OF v(6)]
    keep_value(2) [OF v(7)] keep_value(3) [OF v(8)] keep_value(3) [OF v(9)]
    keep_value(3) [OF v(10)] keep_value(3) [OF v(11)] keep_value(3) [OF v(12)]
    keep_value(3) [OF v(13)] keep_value(3) [OF v(14)]
  have w: "(if name ?new = name tool then name tool else name (stored ?new)) = name ?new"
    "(if category ?new = category tool then category tool else category (stored ?new))
       = category ?new"
    "(if description ?new = description tool then description tool
      else description (stored ?new)) = description ?new"
    "(if url ?new = url tool then url tool else url (stored ?new)) = url ?new"
    "(if frameworks ?new = frameworks tool then frameworks tool else frameworks (stored ?new))
       = frameworks ?new"
    "(if supported_languages ?new = supported_languages tool then supported_languages tool
      else supported_languages (stored ?new)) = supported_languages ?new"
    "(if features ?new = features tool then features tool else features (stored ?new))
       = features ?new"
    "(if native_integrations ?new = native_integrations tool then native_integrations tool
      else native_integrations (stored ?new)) = native_integrations ?new"
    "(if verified_integrations ?new = verified_integrations tool then verified_integrations tool
      else verified_integrations (stored ?new)) = verified_integrations ?new"
    "(if notable_strengths ?new = notable_strengths tool then notable_strengths tool
      else notable_strengths (stored ?new)) = notable_strengths ?new"
    "(if known_limitations ?new = known_limitations tool then known_limitations tool
      else known_limitations (stored ?new)) = known_limitations ?new"
    "(if maturity_score ?new = maturity_score tool then maturity_score tool
      else maturity_score (stored ?new)) = maturity_score ?new"
    "(if popularity_score ?new = popularity_score tool then popularity_score tool
      else popularity_score (stored ?new)) = popularity_score ?new"
    "(if pricing ?new = pricing tool then pricing tool else pricing (stored ?new))
       = pricing ?new"
    using k by (simp_all add: stored_sel update_fields_sel assign_def assign_json_def)
  have "written tool ?new
     = ?new\<lparr> name := name ?new, category := category ?new, description := description ?new,
             url := url ?new, frameworks := frameworks ?new,
             supported_languages := supported_languages ?new, features := features ?new,
             native_integrations := native_integrations ?new,
             verified_integrations := verified_integrations ?new,
             notable_strengths := notable_strengths ?new,
             known_limitations := known_limitations ?new,
             maturity_score := maturity_score ?new,
             popularity_score := popularity_score ?new, pricing := pricing ?new \<rparr>"
    unfolding written_def by (simp only: w)
  also have "\<dots> = ?new" by simp
  finally show ?thesis .
qed

lemma typed_bindable:
  assumes "typed_payload data"
  shows "first_bind_error
      (map (\<lambda>col. col (update_fields tool data))
         (filter (\<lambda>col. col (update_fields tool data) \<noteq> col tool) columns)) = None"
proof -
  let ?new = "update_fields tool data"
  note v = typed_payload_values [OF assms]
  note b = bindable_value(1) [OF v(1)] bindable_value(1) [OF v(2)] bindable_value(1) [OF v(3)]
    bindable_value(1) [OF v(4)] bindable_value(1) [OF v(5)] bindable_value(2) [OF v(6)]
    bindable_value(2) [OF v(7)] bindable_value(3) [OF v(8)] bindable_value(3) [OF v(9)]
    bindable_value(3) [OF v(10)] bindable_value(3) [OF v(11)] bindable_value(3) [OF v(12)]
    bindable_value(3) [OF v(13)] bindable_value(3) [OF v(14)]
  have "\<forall>col \<in> set columns. col ?new \<noteq> col tool \<longrightarrow> bindable (col ?new)"
    using b by (simp add: columns_def update_fields_sel assign_def assign_json_def)
  then have "list_all bindable
      (map (\<lambda>col. col ?new) (filter (\<lambda>col. col ?new \<noteq> col tool) columns))"
    by (simp add: list_all_iff)
  then show ?thesis by (rule first_bind_error_None)
qed

lemma update_row_typed:
  assumes "typed_payload data"
    and "\<exists>col \<in> set columns. col (update_fields tool data) \<noteq> col tool"
    and "update_row now store tool (update_fields tool data) = Inr (row, store1)"
  shows "row = (update_fields tool data)\<lparr> updated_at := Some now \<rparr>
     \<and> store1 = map (\<lambda>t. if id' t = id' tool then row else t) store"
  using update_row_changed [OF assms(2,3)] typed_written [OF assms(1)] by simp

text \<open>
  Claim C8, as the code has it, for an id of 64 bits and a payload that holds values of
  the columns' types. \<^verbatim>\<open>update_tool\<close> answers 404 and leaves the store as it is when
  no record has the id; when it raises, the store is as it was, unless it is the
  serialization of the record written that raises. When it answers for the record
  \<open>tool\<close>, the record \<open>new\<close> it returns has, in each of the fourteen columns a
  payload can name, the payload's value when the payload holds the key (through
  \<^verbatim>\<open>_serialize_json_field\<close> for an array column) and the value of \<open>tool\<close> when it
  does not; its id and its \<^verbatim>\<open>created_at\<close> are those of \<open>tool\<close>. When some column
  has changed, \<^verbatim>\<open>updated_at\<close> is the time of the request and \<open>new\<close> stands in the
  store for the record with the id, every other record as it was; when no column has
  changed, nothing is written: the record and the store are as before, \<^verbatim>\<open>updated_at\<close>
  included.
\<close>

theorem update_tool_frame:
  "int64 tool_id \<and> typed_payload data \<longrightarrow>
   (find (\<lambda>t. id' t = Some tool_id) store = None \<longrightarrow>
       update_tool lim now store tool_id data = (Inr NotFound, store))
   \<and> (\<forall>e store1. update_tool lim now store tool_id data = (Inl e, store1) \<longrightarrow>
         store1 = store \<or> (\<exists>new \<in> set store1. to_dict lim new = Inl e))
   \<and> (\<forall>tool r store1.
        find (\<lambda>t. id' t = Some tool_id) store = Some tool
        \<and> update_tool lim now store tool_id data = (Inr r, store1) \<longrightarrow>
        (\<exists>new body. r = Response 200 body \<and> to_dict lim new = Inr body
          \<and> (\<forall>(k, col) \<in> set scalar_fields.
                col new = (if dict_in k data then dict_get data k else col tool))
          \<and> (\<forall>(k, col) \<in> set array_fields.
                col new = (if dict_in k data then serialize_json_field (dict_get data k)
                           else col tool))
          \<and> id' new = id' tool \<and> created_at new = created_at tool
          \<and> ((\<exists>col \<in> set columns. col new \<noteq> col tool) \<longrightarrow>
                updated_at new = Some now
                \<and> store1 = map (\<lambda>t. if id' t = Some tool_id then new else t) store)
          \<and> ((\<forall>col \<in> set columns. col new = col tool) \<longrightarrow>
                new = tool \<and> store1 = store)))"
proof (intro conjI allI impI)
  assume h: "int64 tool_id \<and> typed_payload data"
  assume "find (\<lambda>t. id' t = Some tool_id) store = None"
  with h show "update_tool lim now store tool_id data = (Inr NotFound, store)"
    by (simp add: update_tool_def bind_error_def)
next
  fix e store1
  assume h: "int64 tool_id \<and> typed_payload data"
  assume u: "update_tool lim now store tool_id data = (Inl e, store1)"
  let ?new = "\<lambda>tool. update_fields tool data"
  from h have b: "bind_error (PInt tool_id) = None" by (simp add: bind_error_def)
  from u b obtain tool where f: "find (\<lambda>t. id' t = Some tool_id) store = Some tool"
    by (auto simp: update_tool_def split: option.splits)
  then have mem: "tool \<in> set store" by (auto simp: find_Some_iff)
  show "store1 = store \<or> (\<exists>new \<in> set store1. to_dict lim new = Inl e)"
  proof (cases "update_row now store tool (?new tool)")
    case (Inl e')
    with u b f show ?thesis by (simp add: update_tool_def)
  next
    case (Inr p)
    obtain row st where p: "p = (row, st)" by (cases p)
    with Inr have row: "update_row now store tool (?new tool) = Inr (row, st)" by simp
    with u b f have st: "st = store1" and td: "to_dict lim row = Inl e"
      by (auto simp: update_tool_def and_then_def split: sum.splits)
    show ?thesis
    proof (cases "\<forall>col \<in> set columns. col (?new tool) = col tool")
      case True
      from update_row_unchanged [OF True, of now store] row st show ?thesis by simp
    next
      case False
      then have ch: "\<exists>col \<in> set columns. col (?new tool) \<noteq> col tool" by blast
      from update_row_changed [OF ch row] st
      have "store1 = map (\<lambda>t. if id' t = id' tool then row else t) store" by simp
      with mem have "row \<in> set store1" by force
      with td show ?thesis by blast
    qed
  qed
next
  fix tool r store1
  assume h: "int64 tool_id \<and> typed_payload data"
  assume a: "find (\<lambda>t. id' t = Some tool_id) store = Some tool
        \<and> update_tool lim now store tool_id data = (Inr r, store1)"
  let ?new = "update_fields tool data"
  from h have b: "bind_error (PInt tool_id) = None" and ty: "typed_payload data"
    by (simp_all add: bind_error_def)
  from a b obtain row body where row: "update_row now store tool ?new = Inr (row, store1)"
    and r: "r = Response 200 body" and td: "to_dict lim row = Inr body"
    by (auto simp: update_tool_def and_then_def split: sum.splits)
  have idt: "id' tool = Some tool_id" using a find_id by blast
  have cols: "\<And>col. col \<in> set columns \<Longrightarrow> col (?new\<lparr> updated_at := Some now \<rparr>) = col ?new"
    by (auto simp: columns_def)
  show "\<exists>new body. r = Response 200 body \<and> to_dict lim new = Inr body
          \<and> (\<forall>(k, col) \<in> set scalar_fields.
                col new = (if dict_in k data then dict_get data k else col tool))
          \<and> (\<forall>(k, col) \<in> set array_fields.
                col new = (if dict_in k data then serialize_json_field (dict_get data k)
                           else col tool))
          \<and> id' new = id' tool \<and> created_at new = created_at tool
          \<and> ((\<exists>col \<in> set columns. col new \<noteq> col tool) \<longrightarrow>
                updated_at new = Some now
                \<and> store1 = map (\<lambda>t. if id' t = Some tool_id then new else t) store)
          \<and> ((\<forall>col \<in> set columns. col new = col tool) \<longrightarrow>
                new = tool \<and> store1 = store)"
  proof (cases "\<forall>col \<in> set columns. col ?new = col tool")
    case True
    then have same: "?new = tool" by (rule update_fields_same)
    from update_row_unchanged [OF True, of now store] row
    have rs: "row = ?new" "store1 = store" by simp_all
    have s: "\<forall>(k, col) \<in> set scalar_fields.
                col row = (if dict_in k data then dict_get data k else col tool)"
      unfolding rs using update_fields_scalar by blast
    have ar: "\<forall>(k, col) \<in> set array_fields.
                col row = (if dict_in k data then serialize_json_field (dict_get data k)
                           else col tool)"
      unfolding rs using update_fields_array by blast
    have k1: "id' row = id' tool" and k2: "created_at row = created_at tool"
      unfolding rs by (simp_all add: update_fields_kept)
    have c1: "(\<exists>col \<in> set columns. col row \<noteq> col tool) \<longrightarrow>
                updated_at row = Some now
                \<and> store1 = map (\<lambda>t. if id' t = Some tool_id then row else t) store"
      unfolding rs(1) using True by blast
    have c2: "(\<forall>col \<in> set columns. col row = col tool) \<longrightarrow> row = tool \<and> store1 = store"
      using rs same by simp
    show ?thesis by (intro exI [of _ row] exI [of _ body] conjI) (rule r td s ar k1 k2 c1 c2)+
  next
    case False
    then have ch: "\<exists>col \<in> set columns. col ?new \<noteq> col tool" by blast
    from update_row_typed [OF ty ch row]
    have rs: "row = ?new\<lparr> updated_at := Some now \<rparr>"
      and st: "store1 = map (\<lambda>t. if id' t = id' tool then row else t) store" by simp_all
    have s: "\<forall>(k, col) \<in> set scalar_fields.
                col row = (if dict_in k data then dict_get data k else col tool)"
    proof (clarify)
      fix k col assume m: "(k, col) \<in> set scalar_fields"
      then have "col \<in> set columns" by (auto simp: scalar_fields_def columns_def)
      from cols [OF this] have "col row = col ?new" unfolding rs .
      with update_fields_scalar [OF m]
      show "col row = (if dict_in k data then dict_get data k else col tool)" by simp
    qed
    have ar: "\<forall>(k, col) \<in> set array_fields.
                col row = (if dict_in k data then serialize_json_field (dict_get data k)
                           else col tool)"
    proof (clarify)
      fix k col assume m: "(k, col) \<in> set array_fields"
      then have "col \<in> set columns" by (auto simp: array_fields_def columns_def)
      from cols [OF this] have "col row = col ?new" unfolding rs .
      with update_fields_array [OF m]
      show "col row = (if dict_in k data then serialize_json_field (dict_get data k)
                           else col tool)" by simp
    qed
    have k1: "id' row = id' tool" and k2: "created_at row = created_at tool"
      unfolding rs by (simp_all add: update_fields_kept)
    have c1: "(\<exists>col \<in> set columns. col row \<noteq> col tool) \<longrightarrow>
                updated_at row = Some now
                \<and> store1 = map (\<lambda>t. if id' t = Some tool_id then row else t) store"
      using st idt rs by simp
    from ch obtain c where c: "c \<in> set columns" "c ?new \<noteq> c tool" by blast
    from cols [OF c(1)] c(2) have "c row \<noteq> c tool" unfolding rs by simp
    with c(1) have "\<exists>col \<in> set columns. col row \<noteq> col tool" by blast
    then have c2: "(\<forall>col \<in> set columns. col row = col tool) \<longrightarrow> row = tool \<and> store1 = store"
      by blast
    show ?thesis by (intro exI [of _ row] exI [of _ body] conjI) (rule r td s ar k1 k2 c1 c2)+
  qed
qed

text \<open>The definitions that the simplifier unfolds to run a request on a given store.\<close>

lemmas create_eval = create_tool_def dict_get_def from_dict_def insert_row_def columns_def
  bind_error_def int64_def stored_def sqlite_value_def serialize_json_field_def next_id_def
  Let_def ustr_def

lemmas update_eval = update_tool_def update_row_def update_fields_def assign_def
  assign_json_def dict_in_def dict_get_def from_dict_def columns_def bind_error_def int64_def
  written_def stored_def sqlite_value_def serialize_json_field_def Let_def ustr_def

lemmas to_dict_eval = to_dict_def and_then_def parse_json_field_def id_or_None_def
  isoformat_or_None_def zfill_def

text \<open>
  Claim C7: the theorem for \<^verbatim>\<open>"Cody"\<close> on the empty store: created, then refused, with
  one record in the store; \<^verbatim>\<open>"cody"\<close> is not refused.
\<close>

theorem create_tool_conflict_witness:
  "\<exists>r1 store1.
     create_tool 1000 (DateTime 2025 1 1 0 0 0) []
       [(ustr ''name'', PStr (ustr ''Cody'')), (ustr ''category'', PStr (ustr ''AI''))]
       = (Inr r1, store1)
     \<and> status_code r1 = 201 \<and> length store1 = 1
     \<and> create_tool 1000 (DateTime 2025 1 2 0 0 0) store1
         [(ustr ''name'', PStr (ustr ''Cody'')), (ustr ''category'', PStr (ustr ''AI''))]
         = (Inr (Response 409
              [(ustr ''error'', PStr (ustr ''Tool with this name already exists''))]), store1)
     \<and> (\<forall>body store2.
           create_tool 1000 (DateTime 2025 1 2 0 0 0) store1
             [(ustr ''name'', PStr (ustr ''cody'')), (ustr ''category'', PStr (ustr ''AI''))]
           \<noteq> (Inr (Response 409 body), store2))"
proof -
  let ?cody = "[(ustr ''name'', PStr (ustr ''Cody'')), (ustr ''category'', PStr (ustr ''AI''))]"
  let ?lower = "[(ustr ''name'', PStr (ustr ''cody'')), (ustr ''category'', PStr (ustr ''AI''))]"
  let ?row = "(from_dict ?cody)\<lparr> id' := Some 1, created_at := Some (DateTime 2025 1 1 0 0 0),
                 updated_at := Some (DateTime 2025 1 1 0 0 0) \<rparr>"
  have e0: "create_tool 1000 (DateTime 2025 1 1 0 0 0) [] ?cody
             = (and_then (to_dict 1000 ?row) (\<lambda>body. Inr (Response 201 body)), [?row])"
    by (simp add: create_eval)
  have "\<exists>body. to_dict 1000 ?row = Inr body"
    by (simp add: to_dict_eval from_dict_def dict_get_def serialize_json_field_def ustr_def)
  then obtain body where "to_dict 1000 ?row = Inr body" ..
  with e0 have e: "create_tool 1000 (DateTime 2025 1 1 0 0 0) [] ?cody
             = (Inr (Response 201 body), [?row])"
    by (simp add: and_then_def)
  have v: "dict_get ?cody (ustr ''name'') = PStr (ustr ''Cody'') \<and> ustr ''Cody'' \<noteq> []
             \<and> truthy (dict_get ?cody (ustr ''category''))"
    by (simp add: dict_get_def ustr_def)
  have w: "dict_get ?lower (ustr ''name'') = PStr (ustr ''cody'') \<and> ustr ''cody'' \<noteq> []
             \<and> truthy (dict_get ?lower (ustr ''category''))"
    by (simp add: dict_get_def ustr_def)
  have d: "\<forall>t \<in> set [?row]. name t \<noteq> PStr (ustr ''cody'')"
    by (simp add: from_dict_def dict_get_def ustr_def)
  from create_tool_conflict
         [of ?cody "ustr ''Cody''" "[]" 1000 "DateTime 2025 1 1 0 0 0" 1000
            "DateTime 2025 1 2 0 0 0"] v e
  have 2: "create_tool 1000 (DateTime 2025 1 2 0 0 0) [?row] ?cody
         = (Inr (Response 409
              [(ustr ''error'', PStr (ustr ''Tool with this name already exists''))]), [?row])"
    by blast
  from create_tool_conflict
         [of ?lower "ustr ''cody''" "[?row]" 1000 "DateTime 2025 1 2 0 0 0" 1000
            "DateTime 2025 1 2 0 0 0"] w d
  have 3: "\<forall>body store2. create_tool 1000 (DateTime 2025 1 2 0 0 0) [?row] ?lower
           \<noteq> (Inr (Response 409 body), store2)"
    by blast
  show ?thesis
    apply (rule exI [of _ "Response 201 body"])
    apply (rule exI [of _ "[?row]"])
    using e 2 3 by (simp add: status_code_def)
qed

text \<open>
  Claim C8 as the spec states it fails where it says that every update refreshes
  \<^verbatim>\<open>updated_at\<close>: an update with the empty payload, or with the name the record already
  has, a day after the record was created, is answered with the record as it was.
\<close>

theorem update_tool_empty_payload_keeps_updated_at:
  "(let row = (from_dict [(ustr ''name'', PStr (ustr ''Cody'')),
                          (ustr ''category'', PStr (ustr ''AI''))])
                \<lparr> id' := Some 1, created_at := Some (DateTime 2025 1 1 0 0 0),
                  updated_at := Some (DateTime 2025 1 1 0 0 0) \<rparr>
    in update_tool 1000 (DateTime 2025 1 2 0 0 0) [row] 1 []
         = (and_then (to_dict 1000 row) (\<lambda>body. Inr (Response 200 body)), [row])
       \<and> (case to_dict 1000 row of
             Inr body \<Rightarrow>
               map_of body (ustr ''updated_at'') = Some (PStr (ustr ''2025-01-01T00:00:00''))
           | Inl e \<Rightarrow> False)
       \<and> updated_at row = Some (DateTime 2025 1 1 0 0 0)
       \<and> updated_at row \<noteq> Some (DateTime 2025 1 2 0 0 0)
       \<and> update_tool 1000 (DateTime 2025 1 2 0 0 0) [row] 1
           [(ustr ''name'', PStr (ustr ''Cody''))]
         = (and_then (to_dict 1000 row) (\<lambda>body. Inr (Response 200 body)), [row]))"
proof -
  let ?row = "(from_dict [(ustr ''name'', PStr (ustr ''Cody'')),
                          (ustr ''category'', PStr (ustr ''AI''))])
                \<lparr> id' := Some 1, created_at := Some (DateTime 2025 1 1 0 0 0),
                  updated_at := Some (DateTime 2025 1 1 0 0 0) \<rparr>"
  have 1: "update_tool 1000 (DateTime 2025 1 2 0 0 0) [?row] 1 []
         = (and_then (to_dict 1000 ?row) (\<lambda>body. Inr (Response 200 body)), [?row])"
    by (simp add: update_eval)
  have 2: "(case to_dict 1000 ?row of
             Inr body \<Rightarrow>
               map_of body (ustr ''updated_at'') = Some (PStr (ustr ''2025-01-01T00:00:00''))
           | Inl e \<Rightarrow> False)"
    by (simp add: to_dict_eval from_dict_def dict_get_def serialize_json_field_def ustr_def)
  have 3: "updated_at ?row = Some (DateTime 2025 1 1 0 0 0)
       \<and> updated_at ?row \<noteq> Some (DateTime 2025 1 2 0 0 0)" by simp
  have 4: "update_tool 1000 (DateTime 2025 1 2 0 0 0) [?row] 1
           [(ustr ''name'', PStr (ustr ''Cody''))]
         = (and_then (to_dict 1000 ?row) (\<lambda>body. Inr (Response 200 body)), [?row])"
    by (simp add: update_eval)
  from 1 2 3 4 show ?thesis unfolding Let_def by (intro conjI) simp_all
qed

text \<open>
  Claim C8: the theorem on a store of one record: an id that is not there, and a payload
  with a description and a list of frameworks.
\<close>

theorem update_tool_frame_witness:
  "(let row = (from_dict [(ustr ''name'', PStr (ustr ''Cody'')),
                          (ustr ''category'', PStr (ustr ''AI''))])
                \<lparr> id' := Some 1, created_at := Some (DateTime 2025 1 1 0 0 0),
                  updated_at := Some (DateTime 2025 1 1 0 0 0) \<rparr>;
        data = [(ustr ''description'', PStr (ustr ''assistant'')),
                (ustr ''frameworks'', PList [PStr (ustr ''React'')])]
    in update_tool 1000 (DateTime 2025 1 2 0 0 0) [row] 2 data = (Inr NotFound, [row])
       \<and> (\<exists>new body. update_tool 1000 (DateTime 2025 1 2 0 0 0) [row] 1 data
                   = (Inr (Response 200 body), [new])
             \<and> to_dict 1000 new = Inr body
             \<and> description new = PStr (ustr ''assistant'')
             \<and> frameworks new = PStr (ustr ''[\"React\"]'')
             \<and> name new = PStr (ustr ''Cody'') \<and> category new = PStr (ustr ''AI'')
             \<and> id' new = Some 1 \<and> created_at new = Some (DateTime 2025 1 1 0 0 0)
             \<and> updated_at new = Some (DateTime 2025 1 2 0 0 0)))"
proof -
  let ?row = "(from_dict [(ustr ''name'', PStr (ustr ''Cody'')),
                          (ustr ''category'', PStr (ustr ''AI''))])
                \<lparr> id' := Some 1, created_at := Some (DateTime 2025 1 1 0 0 0),
                  updated_at := Some (DateTime 2025 1 1 0 0 0) \<rparr>"
  let ?data = "[(ustr ''description'', PStr (ustr ''assistant'')),
                (ustr ''frameworks'', PList [PStr (ustr ''React'')])]"
  let ?now = "DateTime 2025 1 2 0 0 0"
  have f2: "find (\<lambda>t. id' t = Some 2) [?row] = None" by simp
  have f1: "find (\<lambda>t. id' t = Some 1) [?row] = Some ?row" by simp
  have i: "int64 1" "int64 2" by (simp_all add: int64_def)
  have ty: "typed_payload ?data"
    by (simp add: typed_payload_def text_fields_def array_fields_def text_value_def
        score_value_def array_value_def dict_get_def ustr_def)
  from update_tool_frame [of 2 ?data "[?row]" 1000 ?now] f2 i ty
  have nf: "update_tool 1000 ?now [?row] 2 ?data = (Inr NotFound, [?row])" by blast
  have ok: "\<exists>r store1. update_tool 1000 ?now [?row] 1 ?data = (Inr r, store1)"
    by (simp add: update_eval to_dict_eval json_eval encode_basestring_ascii_def
        escape_char_def)
  then obtain r store1 where u: "update_tool 1000 ?now [?row] 1 ?data = (Inr r, store1)" by blast
  from update_tool_frame [of 1 ?data "[?row]" 1000 ?now] i ty f1 u obtain new body where
    r: "r = Response 200 body" and td: "to_dict 1000 new = Inr body"
    and s: "\<forall>(k, col) \<in> set scalar_fields.
                col new = (if dict_in k ?data then dict_get ?data k else col ?row)"
    and a: "\<forall>(k, col) \<in> set array_fields.
                col new = (if dict_in k ?data then serialize_json_field (dict_get ?data k)
                           else col ?row)"
    and k: "id' new = id' ?row" "created_at new = created_at ?row"
    and c: "(\<exists>col \<in> set columns. col new \<noteq> col ?row) \<longrightarrow>
                updated_at new = Some ?now
                \<and> store1 = map (\<lambda>t. if id' t = Some 1 then new else t) [?row]"
    by blast
  from s have d: "description new = PStr (ustr ''assistant'')"
    and n: "name new = PStr (ustr ''Cody'')" and g: "category new = PStr (ustr ''AI'')"
    by (simp_all add: scalar_fields_def dict_in_def dict_get_def from_dict_def ustr_def)
  from a have fw: "frameworks new = PStr (ustr ''[\"React\"]'')"
    by (simp add: array_fields_def dict_in_def dict_get_def serialize_json_field_def ustr_def
        encode_basestring_ascii_def escape_char_def)
  have "description \<in> set columns" by (simp add: columns_def)
  moreover from d have "description new \<noteq> description ?row"
    by (simp add: from_dict_def dict_get_def ustr_def)
  ultimately have "\<exists>col \<in> set columns. col new \<noteq> col ?row" by blast
  with c have up: "updated_at new = Some ?now" and st: "store1 = [new]" by simp_all
  from k have k': "id' new = Some 1" "created_at new = Some (DateTime 2025 1 1 0 0 0)"
    by simp_all
  from u r st have "update_tool 1000 ?now [?row] 1 ?data = (Inr (Response 200 body), [new])"
    by simp
  with td d fw n g k' up have
    "\<exists>new body. update_tool 1000 ?now [?row] 1 ?data = (Inr (Response 200 body), [new])
             \<and> to_dict 1000 new = Inr body
             \<and> description new = PStr (ustr ''assistant'')
             \<and> frameworks new = PStr (ustr ''[\"React\"]'')
             \<and> name new = PStr (ustr ''Cody'') \<and> category new = PStr (ustr ''AI'')
             \<and> id' new = Some 1 \<and> created_at new = Some (DateTime 2025 1 1 0 0 0)
             \<and> updated_at new = Some ?now"
    by blast
  with nf show ?thesis unfolding Let_def by (rule conjI)
qed

text \<open>
  Claim C10: the theorem on a store with the records Cody and Claude: renaming Claude to
  Cody.
\<close>

theorem update_tool_no_conflict_witness:
  "(let cody = (from_dict [(ustr ''name'', PStr (ustr ''Cody'')),
                           (ustr ''category'', PStr (ustr ''AI''))])
                 \<lparr> id' := Some 1, created_at := Some (DateTime 2025 1 1 0 0 0),
                   updated_at := Some (DateTime 2025 1 1 0 0 0) \<rparr>;
        claude = (from_dict [(ustr ''name'', PStr (ustr ''Claude'')),
                             (ustr ''category'', PStr (ustr ''AI''))])
                 \<lparr> id' := Some 2, created_at := Some (DateTime 2025 1 1 0 0 0),
                   updated_at := Some (DateTime 2025 1 1 0 0 0) \<rparr>
    in update_tool 1000 (DateTime 2025 1 2 0 0 0) [cody, claude] 2
         [(ustr ''name'', PStr (ustr ''Cody''))]
         = (Inl IntegrityError, [cody, claude])
       \<and> (\<exists>body. create_tool 1000 (DateTime 2025 1 2 0 0 0) [cody, claude]
              [(ustr ''name'', PStr (ustr ''Cody'')), (ustr ''category'', PStr (ustr ''AI''))]
              = (Inr (Response 409 body), [cody, claude])))"
proof -
  let ?cody = "(from_dict [(ustr ''name'', PStr (ustr ''Cody'')),
                           (ustr ''category'', PStr (ustr ''AI''))])
                 \<lparr> id' := Some 1, created_at := Some (DateTime 2025 1 1 0 0 0),
                   updated_at := Some (DateTime 2025 1 1 0 0 0) \<rparr>"
  let ?claude = "(from_dict [(ustr ''name'', PStr (ustr ''Claude'')),
                             (ustr ''category'', PStr (ustr ''AI''))])
                 \<lparr> id' := Some 2, created_at := Some (DateTime 2025 1 1 0 0 0),
                   updated_at := Some (DateTime 2025 1 1 0 0 0) \<rparr>"
  let ?data = "[(ustr ''name'', PStr (ustr ''Cody''))]"
  let ?payload = "[(ustr ''name'', PStr (ustr ''Cody'')), (ustr ''category'', PStr (ustr ''AI''))]"
  let ?now = "DateTime 2025 1 2 0 0 0"
  have h: "find (\<lambda>t. id' t = Some 2) [?cody, ?claude] = Some ?claude
       \<and> dict_in (ustr ''name'') ?data \<and> dict_get ?data (ustr ''name'') = PStr (ustr ''Cody'')
       \<and> name ?claude \<noteq> PStr (ustr ''Cody'')
       \<and> (\<exists>t \<in> set [?cody, ?claude]. id' t \<noteq> Some 2 \<and> name t = PStr (ustr ''Cody''))
       \<and> bindable (PInt 2)
       \<and> list_all (\<lambda>col. bindable (col (update_fields ?claude ?data))) columns"
    by (simp add: update_eval bindable_def)
  have g: "dict_get ?payload (ustr ''name'') = PStr (ustr ''Cody'') \<and> ustr ''Cody'' \<noteq> []
       \<and> truthy (dict_get ?payload (ustr ''category''))
       \<and> (\<exists>t \<in> set [?cody, ?claude]. name t = PStr (ustr ''Cody''))"
    by (simp add: dict_get_def from_dict_def ustr_def)
  note t = update_tool_no_conflict
             [of 1000 ?now "[?cody, ?claude]" 2 ?data ?claude "ustr ''Cody''" ?payload]
  from t h have 1: "update_tool 1000 ?now [?cody, ?claude] 2 ?data
                      = (Inl IntegrityError, [?cody, ?claude])" by blast
  from t g have 2: "\<exists>body. create_tool 1000 ?now [?cody, ?claude] ?payload
                      = (Inr (Response 409 body), [?cody, ?claude])" by blast
  from 1 2 show ?thesis unfolding Let_def by (rule conjI)
qed

subsection \<open>Searching\<close>

text \<open>
  A \<^verbatim>\<open>LIKE\<close> pattern \<^verbatim>\<open>%x%\<close> whose \<open>x\<close> holds no wildcard matches the texts that
  contain \<open>x\<close>.
\<close>

lemma sql_lower_idem: "sql_lower (sql_lower c) = sql_lower c"
  by (simp add: sql_lower_def)

lemma sql_lower_wild: "sql_lower c = 37 \<longleftrightarrow> c = 37" "sql_lower c = 95 \<longleftrightarrow> c = 95"
  by (auto simp: sql_lower_def)

lemma like_percent: "like (37 # ps) s \<longleftrightarrow> (\<exists>k \<le> length s. like ps (drop k s))"
proof (induction s)
  case Nil
  then show ?case by simp
next
  case (Cons c cs)
  have "(\<exists>k \<le> length (c # cs). like ps (drop k (c # cs)))
          \<longleftrightarrow> like ps (c # cs) \<or> (\<exists>k \<le> length cs. like ps (drop k cs))"
  proof
    assume "\<exists>k \<le> length (c # cs). like ps (drop k (c # cs))"
    then obtain k where k: "k \<le> length (c # cs)" "like ps (drop k (c # cs))" by blast
    show "like ps (c # cs) \<or> (\<exists>k \<le> length cs. like ps (drop k cs))"
    proof (cases k)
      case 0
      with k show ?thesis by simp
    next
      case (Suc j)
      with k have "j \<le> length cs" "like ps (drop j cs)" by simp_all
      then show ?thesis by blast
    qed
  next
    assume "like ps (c # cs) \<or> (\<exists>k \<le> length cs. like ps (drop k cs))"
    then show "\<exists>k \<le> length (c # cs). like ps (drop k (c # cs))"
    proof
      assume "like ps (c # cs)"
      then have "0 \<le> length (c # cs) \<and> like ps (drop 0 (c # cs))" by simp
      then show ?thesis by blast
    next
      assume "\<exists>k \<le> length cs. like ps (drop k cs)"
      then obtain k where "k \<le> length cs" "like ps (drop k cs)" by blast
      then have "Suc k \<le> length (c # cs) \<and> like ps (drop (Suc k) (c # cs))" by simp
      then show ?thesis by blast
    qed
  qed
  with Cons show ?case by simp
qed

lemma like_literal:
  "wildcard_free x \<Longrightarrow>
     like (x @ ps) s \<longleftrightarrow>
       (length x \<le> length s \<and> map sql_lower (take (length x) s) = map sql_lower x
        \<and> like ps (drop (length x) s))"
proof (induction x arbitrary: s)
  case Nil
  then show ?case by simp
next
  case (Cons p x)
  then have p: "p \<noteq> 37" "p \<noteq> 95" and x: "wildcard_free x"
    by (auto simp: wildcard_free_def)
  show ?case
  proof (cases s)
    case Nil
    with p show ?thesis by simp
  next
    case (Cons c cs)
    with p Cons.IH [OF x, of cs] show ?thesis by auto
  qed
qed

lemma startswith_iff: "startswith s x \<longleftrightarrow> (\<exists>b. s = x @ b)"
proof
  assume "startswith s x"
  then have "s = x @ drop (length x) s"
    by (metis append_take_drop_id startswith_def)
  then show "\<exists>b. s = x @ b" ..
next
  assume "\<exists>b. s = x @ b"
  then show "startswith s x" by (auto simp: startswith_def)
qed

lemma is_substring_iff: "is_substring x s \<longleftrightarrow> (\<exists>a b. s = a @ x @ b)"
proof (induction s)
  case Nil
  then show ?case by simp
next
  case (Cons c cs)
  show ?case
  proof
    assume "is_substring x (c # cs)"
    then consider "startswith (c # cs) x" | "is_substring x cs" by auto
    then show "\<exists>a b. c # cs = a @ x @ b"
    proof cases
      case 1
      then obtain b where "c # cs = x @ b" by (auto simp: startswith_iff)
      then have "c # cs = [] @ x @ b" by simp
      then show ?thesis by blast
    next
      case 2
      with Cons obtain a b where "cs = a @ x @ b" by blast
      then have "c # cs = (c # a) @ x @ b" by simp
      then show ?thesis by blast
    qed
  next
    assume "\<exists>a b. c # cs = a @ x @ b"
    then obtain a b where ab: "c # cs = a @ x @ b" by blast
    show "is_substring x (c # cs)"
    proof (cases a)
      case Nil
      with ab have "startswith (c # cs) x" by (auto simp: startswith_iff)
      then show ?thesis by simp
    next
      case (Cons d a')
      with ab have "cs = a' @ x @ b" by simp
      with Cons.IH have "is_substring x cs" by blast
      then show ?thesis by simp
    qed
  qed
qed

lemma like_contains:
  assumes "wildcard_free x"
  shows "like (37 # x @ [37]) s
           \<longleftrightarrow> (\<exists>a m b. s = a @ m @ b \<and> map sql_lower m = map sql_lower x)"
proof
  assume "like (37 # x @ [37]) s"
  then obtain k where k: "k \<le> length s" "like (x @ [37]) (drop k s)"
    by (auto simp: like_percent)
  from k(2) like_literal [OF assms, of "[37]" "drop k s"]
  have m: "map sql_lower (take (length x) (drop k s)) = map sql_lower x" by simp
  have "s = take k s @ take (length x) (drop k s) @ drop (length x) (drop k s)"
    by (simp only: append_take_drop_id)
  with m show "\<exists>a m b. s = a @ m @ b \<and> map sql_lower m = map sql_lower x" by blast
next
  assume "\<exists>a m b. s = a @ m @ b \<and> map sql_lower m = map sql_lower x"
  then obtain a m b where s: "s = a @ m @ b" and m: "map sql_lower m = map sql_lower x"
    by blast
  from m have len: "length m = length x" by (metis length_map)
  have all: "like [37] b" by (simp add: like_percent) (rule exI [of _ "length b"], simp)
  have "like (x @ [37]) (m @ b)"
    using like_literal [OF assms, of "[37]" "m @ b"] len m all by simp
  then have "like (x @ [37]) (drop (length a) s)" by (simp add: s)
  moreover have "length a \<le> length s" by (simp add: s)
  ultimately show "like (37 # x @ [37]) s" unfolding like_percent by blast
qed

lemma map_lower_idem: "map sql_lower (map sql_lower s) = map sql_lower s"
  by (induction s) (simp_all add: sql_lower_idem)

lemma wildcard_free_lower:
  assumes "wildcard_free x"
  shows "wildcard_free (map sql_lower x)"
proof -
  have "\<And>w. (w = 37 \<or> w = 95) \<Longrightarrow> w \<in> set (map sql_lower x) \<Longrightarrow> w \<in> set x"
  proof -
    fix w :: nat assume w: "w = 37 \<or> w = 95" and "w \<in> set (map sql_lower x)"
    then obtain c where c: "c \<in> set x" "sql_lower c = w" by auto
    with w have "c = w" using sql_lower_wild by blast
    with c show "w \<in> set x" by simp
  qed
  with assms show ?thesis unfolding wildcard_free_def by blast
qed

lemma like_ci_substring:
  assumes "wildcard_free x"
  shows "like_ci x column = substring_ci x column"
proof (cases column)
  case (PStr s)
  have p: "map sql_lower (percent x) = 37 # map sql_lower x @ [37]"
    by (simp add: percent_def sql_lower_def)
  have "like (37 # map sql_lower x @ [37]) (map sql_lower s)
          \<longleftrightarrow> (\<exists>a b. map sql_lower s = a @ map sql_lower x @ b)"
  proof
    assume "like (37 # map sql_lower x @ [37]) (map sql_lower s)"
    with like_contains [OF wildcard_free_lower [OF assms]] obtain a m b where
      s: "map sql_lower s = a @ m @ b" and m: "map sql_lower m = map sql_lower (map sql_lower x)"
      by blast
    from s have "map sql_lower (map sql_lower s) = map sql_lower (a @ m @ b)"
      by (simp only:)
    then have "map sql_lower s = map sql_lower a @ map sql_lower m @ map sql_lower b"
      by (simp only: map_lower_idem map_append)
    with m have "map sql_lower s = map sql_lower a @ map sql_lower x @ map sql_lower b"
      by (simp only: map_lower_idem)
    then show "\<exists>a b. map sql_lower s = a @ map sql_lower x @ b" by blast
  next
    assume "\<exists>a b. map sql_lower s = a @ map sql_lower x @ b"
    then obtain a b where "map sql_lower s = a @ map sql_lower x @ b" by blast
    then have "map sql_lower s = a @ map sql_lower x @ b
                 \<and> map sql_lower (map sql_lower x) = map sql_lower (map sql_lower x)"
      by simp
    then have "\<exists>a m b. map sql_lower s = a @ m @ b
                 \<and> map sql_lower m = map sql_lower (map sql_lower x)"
      by blast
    with like_contains [OF wildcard_free_lower [OF assms]]
    show "like (37 # map sql_lower x @ [37]) (map sql_lower s)" by blast
  qed
  with PStr p show ?thesis
    by (simp add: like_ci_def ilike_def substring_ci_def is_substring_iff)
qed (simp_all add: like_ci_def ilike_def substring_ci_def)

text \<open>
  The successive filters of \<^verbatim>\<open>search_tools\<close> keep the records that satisfy the
  criteria read from the query string.
\<close>

lemma stage_text:
  "(if (case a of None \<Rightarrow> [] | Some s \<Rightarrow> s) \<noteq> []
    then filter (P (case a of None \<Rightarrow> [] | Some s \<Rightarrow> s)) q else q)
   = filter (\<lambda>t. case nonempty a of None \<Rightarrow> True | Some x \<Rightarrow> P x t) q"
  by (cases a) (simp_all add: nonempty_def)

lemma stage_option:
  "(case a of None \<Rightarrow> q | Some c \<Rightarrow> if c \<noteq> [] then filter (P c) q else q)
   = filter (\<lambda>t. case nonempty a of None \<Rightarrow> True | Some x \<Rightarrow> P x t) q"
  by (cases a) (simp_all add: nonempty_def)

lemma stage_int:
  "(case a of None \<Rightarrow> q | Some (m :: int) \<Rightarrow> if m \<noteq> 0 then filter (P m) q else q)
   = filter (\<lambda>t. case nonzero a of None \<Rightarrow> True | Some x \<Rightarrow> P x t) q"
  by (cases a) (simp_all add: nonzero_def)

lemma member_filters_Nil: "member_filters [] = []"
  by (simp add: member_filters_def)

lemma stage_list:
  "(if ms \<noteq> [] then
      (let ff = member_filters ms
       in if ff \<noteq> [] then filter (\<lambda>t. list_ex (P t) ff) q else q)
    else q)
   = filter (\<lambda>t. member_filters ms = [] \<or> list_ex (P t) (member_filters ms)) q"
  by (cases "ms = []") (simp_all add: Let_def member_filters_Nil)

lemma search_query_stages:
  "search_query store args =
     filter (\<lambda>t. member_filters (split_arg (args (ustr ''languages''))) = []
                \<or> list_ex (\<lambda>l. ilike (supported_languages t) (percent l))
                     (member_filters (split_arg (args (ustr ''languages'')))))
      (filter (\<lambda>t. member_filters (split_arg (args (ustr ''frameworks''))) = []
                \<or> list_ex (\<lambda>f. ilike (frameworks t) (percent f))
                     (member_filters (split_arg (args (ustr ''frameworks'')))))
       (filter (\<lambda>t. case nonzero (int_arg (args (ustr ''min_popularity''))) of
                       None \<Rightarrow> True | Some m \<Rightarrow> score_ge (popularity_score t) m)
        (filter (\<lambda>t. case nonzero (int_arg (args (ustr ''min_maturity''))) of
                        None \<Rightarrow> True | Some m \<Rightarrow> score_ge (maturity_score t) m)
         (filter (\<lambda>t. case nonempty (args (ustr ''category'')) of
                         None \<Rightarrow> True | Some c \<Rightarrow> ilike (category t) (percent c))
          (filter (\<lambda>t. case nonempty (args (ustr ''q'')) of
                          None \<Rightarrow> True | Some x \<Rightarrow> text_filter x t) store)))))"
  unfolding search_query_def Let_def
  by (simp only: stage_text stage_option stage_int stage_list [unfolded Let_def])

lemma search_query_satisfies:
  "search_query store args = filter (satisfies like_ci (criteria_of args)) store"
  unfolding search_query_stages filter_filter
  by (rule filter_cong [OF refl])
     (simp add: satisfies_def criteria_of_def like_ci_def text_filter_def conj_ac
        split: option.splits)

lemma satisfies_wildcard_free:
  assumes "wildcard_free_criteria c"
  shows "satisfies like_ci c t = satisfies substring_ci c t"
proof -
  have 1: "\<And>q col. c_text c = Some q \<Longrightarrow> like_ci q col = substring_ci q col"
    using assms by (simp add: wildcard_free_criteria_def like_ci_substring)
  have 2: "\<And>x col. c_category c = Some x \<Longrightarrow> like_ci x col = substring_ci x col"
    using assms by (simp add: wildcard_free_criteria_def like_ci_substring)
  have 3: "\<And>col. list_ex (\<lambda>f. like_ci f col) (c_frameworks c)
                = list_ex (\<lambda>f. substring_ci f col) (c_frameworks c)"
    using assms
    by (auto simp: wildcard_free_criteria_def list_ex_iff list_all_iff like_ci_substring)
  have 4: "\<And>col. list_ex (\<lambda>f. like_ci f col) (c_languages c)
                = list_ex (\<lambda>f. substring_ci f col) (c_languages c)"
    using assms
    by (auto simp: wildcard_free_criteria_def list_ex_iff list_all_iff like_ci_substring)
  show ?thesis
    unfolding satisfies_def by (simp add: 1 2 3 4 split: option.splits)
qed

lemmas criteria_eval = criteria_of_def nonempty_def nonzero_def int_arg_def split_arg_def
  member_filters_def py_split_def strip_def py_isspace_def ustr_def

lemma criteria_React_Vue:
  "criteria_of [ustr ''frameworks'' \<mapsto> ustr ''React,Vue'']
     = \<lparr> c_text = None, c_category = None, c_min_maturity = None, c_min_popularity = None,
         c_frameworks = [ustr ''React'', ustr ''Vue''], c_languages = [] \<rparr>"
  by (simp add: criteria_eval)

lemma wildcard_free_React_Vue:
  "wildcard_free_criteria (criteria_of [ustr ''frameworks'' \<mapsto> ustr ''React,Vue''])"
  unfolding criteria_React_Vue
  by (simp add: wildcard_free_criteria_def wildcard_free_def ustr_def)

text \<open>
  The records that a search selects are those that satisfy every criterion given, a list
  by any of its members, with the matching of \<^verbatim>\<open>LIKE\<close>; for criteria without a
  wildcard they are the records of the spec. The request is answered with them when its
  minimums can be bound to the statement and the records serialize; a minimum beyond 64
  bits ends it in \<^verbatim>\<open>OverflowError\<close>.
\<close>

lemma search_query_contract:
  "search_query store args = filter (satisfies like_ci (criteria_of args)) store"
  "wildcard_free_criteria (criteria_of args) \<Longrightarrow>
     search_query store args = search_spec store (criteria_of args)"
  "search_query store [ustr ''frameworks'' \<mapsto> ustr ''React,Vue'']
     = filter (\<lambda>t. substring_ci (ustr ''React'') (frameworks t)
                   \<or> substring_ci (ustr ''Vue'') (frameworks t)) store"
proof -
  show "search_query store args = filter (satisfies like_ci (criteria_of args)) store"
    by (rule search_query_satisfies)
next
  assume w: "wildcard_free_criteria (criteria_of args)"
  show "search_query store args = search_spec store (criteria_of args)"
    unfolding search_query_satisfies search_spec_def
    by (rule filter_cong [OF refl]) (rule satisfies_wildcard_free [OF w])
next
  let ?args = "[ustr ''frameworks'' \<mapsto> ustr ''React,Vue'']"
  have "search_query store ?args = filter (satisfies substring_ci (criteria_of ?args)) store"
    unfolding search_query_satisfies
    by (rule filter_cong [OF refl]) (rule satisfies_wildcard_free [OF wildcard_free_React_Vue])
  also have "\<dots> = filter (\<lambda>t. substring_ci (ustr ''React'') (frameworks t)
                     \<or> substring_ci (ustr ''Vue'') (frameworks t)) store"
    unfolding criteria_React_Vue by (rule filter_cong [OF refl]) (simp add: satisfies_def)
  finally show "search_query store ?args
       = filter (\<lambda>t. substring_ci (ustr ''React'') (frameworks t)
                     \<or> substring_ci (ustr ''Vue'') (frameworks t)) store" .
qed

lemma search_query_filter: "\<exists>Q. search_query store args = filter Q store"
  using search_query_satisfies by blast

lemma search_tools_response:
  assumes "first_bind_error (search_parameters args) = None"
    and "list_all (serializes lim) store"
  shows "\<exists>td. search_tools lim store args
           = Inr (Response 200
               [(ustr ''tools'', PList (map PDict td)),
                (ustr ''count'', PInt (int (length (search_query store args))))])
         \<and> map_result (to_dict lim) (search_query store args) = Inr td
         \<and> length td = length (search_query store args)"
proof -
  obtain Q where q: "search_query store args = filter Q store"
    using search_query_filter by blast
  from assms(2) have "list_all (serializes lim) (filter Q store)"
    by (auto simp: list_all_iff)
  then have "list_all (\<lambda>x. case to_dict lim x of Inl e \<Rightarrow> False | Inr y \<Rightarrow> True)
               (search_query store args)"
    unfolding q serializes_def .
  from map_result_Inr [OF this] obtain td where
    td: "map_result (to_dict lim) (search_query store args) = Inr td"
    and len: "length td = length (search_query store args)" by blast
  from assms(1) td have "search_tools lim store args
           = Inr (Response 200
               [(ustr ''tools'', PList (map PDict td)),
                (ustr ''count'', PInt (int (length (search_query store args))))])"
    by (simp add: search_tools_def Let_def and_then_def)
  with td len show ?thesis by blast
qed

lemma search_tools_overflow:
  "search_tools lim store [ustr ''min_maturity'' \<mapsto> ustr ''99999999999999999999'']
     = Inl OverflowError"
  by (simp add: search_tools_def search_parameters_def int_arg_def py_int_examples
      bind_error_def int64_def)

text \<open>
  Claim C3 (a member of the list matches a record whose stored frameworks contain it,
  without regard to case) fails on the code for a text with a wildcard: the text is put
  into the pattern \<^verbatim>\<open>%text%\<close> as it is, and \<^verbatim>\<open>_\<close> in a \<^verbatim>\<open>LIKE\<close> pattern stands for
  any one character. So \<^verbatim>\<open>frameworks=R_act\<close> returns a tool whose stored frameworks are
  \<^verbatim>\<open>["React"]\<close>, a text that does not contain \<^verbatim>\<open>R_act\<close>, and that the search of the
  spec does not return.
\<close>

theorem search_tools_like_wildcard:
  "(let tool = (from_dict [(ustr ''name'', PStr (ustr ''Cody'')),
                           (ustr ''category'', PStr (ustr ''AI'')),
                           (ustr ''frameworks'', PList [PStr (ustr ''React'')])])
                 \<lparr> id' := Some 1, created_at := Some (DateTime 2025 1 1 0 0 0),
                   updated_at := Some (DateTime 2025 1 1 0 0 0) \<rparr>;
        args = [ustr ''frameworks'' \<mapsto> ustr ''R_act'']
    in frameworks tool = PStr (ustr ''[\"React\"]'')
       \<and> search_query [tool] args = [tool]
       \<and> (case search_tools 1000 [tool] args of
             Inr (Response code body) \<Rightarrow>
               code = 200 \<and> map_of body (ustr ''count'') = Some (PInt 1)
           | _ \<Rightarrow> False)
       \<and> \<not> substring_ci (ustr ''R_act'') (frameworks tool)
       \<and> search_spec [tool] (criteria_of args) = [])"
proof -
  let ?tool = "(from_dict [(ustr ''name'', PStr (ustr ''Cody'')),
                           (ustr ''category'', PStr (ustr ''AI'')),
                           (ustr ''frameworks'', PList [PStr (ustr ''React'')])])
                 \<lparr> id' := Some 1, created_at := Some (DateTime 2025 1 1 0 0 0),
                   updated_at := Some (DateTime 2025 1 1 0 0 0) \<rparr>"
  let ?args = "[ustr ''frameworks'' \<mapsto> ustr ''R_act'']"
  have f: "frameworks ?tool = PStr (ustr ''[\"React\"]'')"
    by (simp add: from_dict_def dict_get_def serialize_json_field_def ustr_def
        encode_basestring_ascii_def escape_char_def)
  have f0: "frameworks (from_dict [(ustr ''name'', PStr (ustr ''Cody'')),
                           (ustr ''category'', PStr (ustr ''AI'')),
                           (ustr ''frameworks'', PList [PStr (ustr ''React'')])])
              = PStr (ustr ''[\"React\"]'')"
    by (simp add: from_dict_def dict_get_def serialize_json_field_def ustr_def
        encode_basestring_ascii_def escape_char_def)
  have c: "criteria_of ?args
     = \<lparr> c_text = None, c_category = None, c_min_maturity = None, c_min_popularity = None,
         c_frameworks = [ustr ''R_act''], c_languages = [] \<rparr>"
    by (simp add: criteria_eval)
  have l: "like_ci (ustr ''R_act'') (PStr (ustr ''[\"React\"]''))"
    by (simp add: like_ci_def ilike_def percent_def sql_lower_def ustr_def)
  have s: "\<not> substring_ci (ustr ''R_act'') (PStr (ustr ''[\"React\"]''))"
    by (simp add: substring_ci_def sql_lower_def ustr_def startswith_def)
  have 1: "search_query [?tool] ?args = [?tool]"
    unfolding search_query_satisfies c using l by (simp add: satisfies_def f0)
  have 2: "search_spec [?tool] (criteria_of ?args) = []"
    unfolding search_spec_def c using s by (simp add: satisfies_def f0)
  have p: "first_bind_error (search_parameters ?args) = None"
    by (simp add: search_parameters_def int_arg_def) (simp add: ustr_def)
  have td: "\<exists>d. to_dict 1000 ?tool = Inr d"
    by (simp add: to_dict_eval from_dict_def dict_get_def serialize_json_field_def json_eval
        encode_basestring_ascii_def escape_char_def)
  then have "list_all (serializes 1000) [?tool]" by (auto simp: serializes_def)
  from search_tools_response [OF p this] 1
  have 3: "(case search_tools 1000 [?tool] ?args of
             Inr (Response code body) \<Rightarrow>
               code = 200 \<and> map_of body (ustr ''count'') = Some (PInt 1)
           | _ \<Rightarrow> False)"
    by (auto simp: ustr_def)
  from f 1 3 s 2 show ?thesis unfolding Let_def by (simp only: f simp_thms)
qed

end
